theory Spec2Isabelle
  imports Complex_Main
begin

section \<open>The periodic cell of micmec/pes/cell.c\<close>

text \<open>
  The C functions work on \<^verbatim>\<open>double *\<close> and \<^verbatim>\<open>long *\<close> arguments and on a
  \<^verbatim>\<open>cell_type\<close> struct. An array behind a pointer is modelled by the function from
  index to element; an assignment \<^verbatim>\<open>a[i] = v\<close> is the function update \<open>a(i := v)\<close>.
  The caller's arrays are taken not to overlap the struct.

  A \<^verbatim>\<open>double\<close> is idealised as a \<open>real\<close>: rounding, overflow and NaN are left out,
  except in \<open>cell_mic_b64\<close>, which rounds every operation as binary64 does.
  The one operation of the file whose result differs between the reals and IEEE 754
  even on exact operands is the division \<^verbatim>\<open>1.0/sqrt(...)\<close> of \<^verbatim>\<open>cell_update\<close>,
  which may divide by zero; its result is kept in the type \<open>xdouble\<close>, which has the
  infinities. A \<^verbatim>\<open>long\<close> is an \<open>int\<close>; the conversion of \<^verbatim>\<open>-ceil(...)\<close> to
  \<^verbatim>\<open>long\<close> is taken to be in range. \<^verbatim>\<open>cell_new\<close> and \<^verbatim>\<open>cell_free\<close>, which only
  allocate and release the struct, have no counterpart here.
\<close>

type_synonym double_array = "nat \<Rightarrow> real"
type_synonym long_array = "nat \<Rightarrow> int"

datatype xdouble = Finite real | PosInf | NegInf | NaN

text \<open>IEEE 754 division of two finite doubles, the divisor's zero being \<open>+0.0\<close>.\<close>

definition ddiv :: "real \<Rightarrow> real \<Rightarrow> xdouble" where
  "ddiv a b =
     (if b \<noteq> 0 then Finite (a / b)
      else if 0 < a then PosInf
      else if a < 0 then NegInf
      else NaN)"

type_synonym xdouble_array = "nat \<Rightarrow> xdouble"

text \<open>
  Modelled from the spec: the struct \<^verbatim>\<open>cell_type\<close> is declared in cell.h, which is not
  among the sources. Its fields are the ones cell.c reads and writes: \<^verbatim>\<open>nvec\<close> (an
  \<^verbatim>\<open>int\<close>), \<^verbatim>\<open>rvecs\<close> and \<^verbatim>\<open>gvecs\<close> (9 doubles each, row-major),
  \<^verbatim>\<open>rspacings\<close> and \<^verbatim>\<open>gspacings\<close> (3 doubles each) and \<^verbatim>\<open>volume\<close>.
\<close>

record cell_type =
  nvec :: int
  rvecs :: double_array
  gvecs :: double_array
  rspacings :: xdouble_array
  gspacings :: xdouble_array
  volume :: real

subsection \<open>cell\_update\<close>

text \<open>The loop \<^verbatim>\<open>for (i=0; i<9; i++)\<close> that copies both matrices into the struct.\<close>

function update_copy_loop :: "nat \<Rightarrow> double_array \<Rightarrow> double_array \<Rightarrow> cell_type \<Rightarrow> cell_type" where
  "update_copy_loop i rvecs_in gvecs_in cell =
     (if i < 9 then
        update_copy_loop (i + 1) rvecs_in gvecs_in
          (cell\<lparr>rvecs := (rvecs cell)(i := rvecs_in i),
                gvecs := (gvecs cell)(i := gvecs_in i)\<rparr>)
      else cell)"
  by pat_completeness auto
termination
  by (relation "measure (\<lambda>(i, _, _, _). 9 - i)") auto

text \<open>The loop \<^verbatim>\<open>for (i=0; i<3; i++)\<close> that computes the spacings from the arguments.\<close>

function update_spacings_loop :: "nat \<Rightarrow> double_array \<Rightarrow> double_array \<Rightarrow> cell_type \<Rightarrow> cell_type" where
  "update_spacings_loop i rvecs_in gvecs_in cell =
     (if i < 3 then
        update_spacings_loop (i + 1) rvecs_in gvecs_in
          (cell\<lparr>rspacings := (rspacings cell)(i :=
                   ddiv 1 (sqrt (gvecs_in (3*i) * gvecs_in (3*i)
                               + gvecs_in (3*i+1) * gvecs_in (3*i+1)
                               + gvecs_in (3*i+2) * gvecs_in (3*i+2)))),
                gspacings := (gspacings cell)(i :=
                   ddiv 1 (sqrt (rvecs_in (3*i) * rvecs_in (3*i)
                               + rvecs_in (3*i+1) * rvecs_in (3*i+1)
                               + rvecs_in (3*i+2) * rvecs_in (3*i+2))))\<rparr>)
      else cell)"
  by pat_completeness auto
termination
  by (relation "measure (\<lambda>(i, _, _, _). 3 - i)") auto

text \<open>The \<^verbatim>\<open>switch(nvec)\<close>; it has no \<^verbatim>\<open>default\<close>, so any other value falls through.\<close>

definition update_volume :: "double_array \<Rightarrow> int \<Rightarrow> cell_type \<Rightarrow> cell_type" where
  "update_volume rvecs_in nvec_in cell =
     (if nvec_in = 0 then cell\<lparr>volume := 0\<rparr>
      else if nvec_in = 1 then
        cell\<lparr>volume := sqrt (rvecs_in 0 * rvecs_in 0 + rvecs_in 1 * rvecs_in 1
                               + rvecs_in 2 * rvecs_in 2)\<rparr>
      else if nvec_in = 2 then
        (let tmp = rvecs_in 0 * rvecs_in 3 + rvecs_in 1 * rvecs_in 4 + rvecs_in 2 * rvecs_in 5;
             tmp = (rvecs_in 0 * rvecs_in 0 + rvecs_in 1 * rvecs_in 1 + rvecs_in 2 * rvecs_in 2)
                 * (rvecs_in 3 * rvecs_in 3 + rvecs_in 4 * rvecs_in 4 + rvecs_in 5 * rvecs_in 5)
                 - tmp * tmp
         in if tmp > 0 then cell\<lparr>volume := sqrt tmp\<rparr> else cell\<lparr>volume := 0\<rparr>)
      else if nvec_in = 3 then
        cell\<lparr>volume := \<bar>rvecs_in 0 * (rvecs_in 4 * rvecs_in 8 - rvecs_in 5 * rvecs_in 7)
                        + rvecs_in 1 * (rvecs_in 5 * rvecs_in 6 - rvecs_in 3 * rvecs_in 8)
                        + rvecs_in 2 * (rvecs_in 3 * rvecs_in 7 - rvecs_in 4 * rvecs_in 6)\<bar>\<rparr>
      else cell)"

definition cell_update :: "cell_type \<Rightarrow> double_array \<Rightarrow> double_array \<Rightarrow> int \<Rightarrow> cell_type" where
  "cell_update cell rvecs_in gvecs_in nvec_in =
     update_volume rvecs_in nvec_in
       (update_spacings_loop 0 rvecs_in gvecs_in
          (update_copy_loop 0 rvecs_in gvecs_in (cell\<lparr>nvec := nvec_in\<rparr>)))"

subsection \<open>cell\_mic, cell\_to\_center, cell\_add\_vec\<close>

text \<open>\<^verbatim>\<open>ceil\<close> of math.h: the least integer not below its argument, as a double.\<close>

definition ceil :: "real \<Rightarrow> real" where
  "ceil x = of_int \<lceil>x\<rceil>"

text \<open>The conversion of a double to \<^verbatim>\<open>long\<close>: the fraction is dropped, towards zero.\<close>

definition long_of_double :: "real \<Rightarrow> int" where
  "long_of_double x = (if 0 \<le> x then \<lfloor>x\<rfloor> else \<lceil>x\<rceil>)"

definition cell_mic :: "double_array \<Rightarrow> cell_type \<Rightarrow> double_array" where
  "cell_mic delta cell =
     (if nvec cell = 0 then delta else
      let x = ceil (gvecs cell 0 * delta 0 + gvecs cell 1 * delta 1 + gvecs cell 2 * delta 2 - 0.5);
          delta = delta(0 := delta 0 - x * rvecs cell 0);
          delta = delta(1 := delta 1 - x * rvecs cell 1);
          delta = delta(2 := delta 2 - x * rvecs cell 2)
      in if nvec cell = 1 then delta else
      let x = ceil (gvecs cell 3 * delta 0 + gvecs cell 4 * delta 1 + gvecs cell 5 * delta 2 - 0.5);
          delta = delta(0 := delta 0 - x * rvecs cell 3);
          delta = delta(1 := delta 1 - x * rvecs cell 4);
          delta = delta(2 := delta 2 - x * rvecs cell 5)
      in if nvec cell = 2 then delta else
      let x = ceil (gvecs cell 6 * delta 0 + gvecs cell 7 * delta 1 + gvecs cell 8 * delta 2 - 0.5);
          delta = delta(0 := delta 0 - x * rvecs cell 6);
          delta = delta(1 := delta 1 - x * rvecs cell 7);
          delta = delta(2 := delta 2 - x * rvecs cell 8)
      in delta)"

text \<open>
  \<open>cell_mic\<close> again, line by line, with one addition: next to \<open>delta\<close> it returns the
  array \<open>t\<close> in which \<open>t k\<close> is the integer \<^verbatim>\<open>x\<close> held while direction \<open>k\<close> was
  reduced (and \<open>0\<close> for a direction that was not reached).
\<close>

definition cell_mic_traced :: "double_array \<Rightarrow> cell_type \<Rightarrow> double_array \<times> long_array" where
  "cell_mic_traced delta cell =
     (if nvec cell = 0 then (delta, \<lambda>_. 0) else
      let n = \<lceil>gvecs cell 0 * delta 0 + gvecs cell 1 * delta 1 + gvecs cell 2 * delta 2 - 0.5\<rceil>;
          t = (\<lambda>_. 0)(0 := n);
          x = of_int n;
          delta = delta(0 := delta 0 - x * rvecs cell 0);
          delta = delta(1 := delta 1 - x * rvecs cell 1);
          delta = delta(2 := delta 2 - x * rvecs cell 2)
      in if nvec cell = 1 then (delta, t) else
      let n = \<lceil>gvecs cell 3 * delta 0 + gvecs cell 4 * delta 1 + gvecs cell 5 * delta 2 - 0.5\<rceil>;
          t = t(1 := n);
          x = of_int n;
          delta = delta(0 := delta 0 - x * rvecs cell 3);
          delta = delta(1 := delta 1 - x * rvecs cell 4);
          delta = delta(2 := delta 2 - x * rvecs cell 5)
      in if nvec cell = 2 then (delta, t) else
      let n = \<lceil>gvecs cell 6 * delta 0 + gvecs cell 7 * delta 1 + gvecs cell 8 * delta 2 - 0.5\<rceil>;
          t = t(2 := n);
          x = of_int n;
          delta = delta(0 := delta 0 - x * rvecs cell 6);
          delta = delta(1 := delta 1 - x * rvecs cell 7);
          delta = delta(2 := delta 2 - x * rvecs cell 8)
      in (delta, t))"

subsection \<open>cell\_mic with the rounding of binary64\<close>

text \<open>
  A binary64 number has 53 significant bits: a double \<open>x\<close> with
  \<open>pow2 k \<le> |x| < pow2 (k + 1)\<close> is a multiple of \<open>pow2 (k - 52)\<close>, where \<open>pow2 e\<close> is
  2 to the power \<open>e\<close>. \<open>rnd x\<close> is the multiple nearest
  to \<open>x\<close>, the even one when two are equally near (round to nearest, ties to even, the
  default rounding of IEEE 754). The exponent is not bounded, so there is neither
  overflow nor a subnormal range.
\<close>

definition pow2 :: "int \<Rightarrow> real" where
  "pow2 e = (if 0 \<le> e then 2 ^ nat e else 1 / 2 ^ nat (- e))"

definition round_even :: "real \<Rightarrow> int" where
  "round_even x =
     (let f = \<lfloor>x\<rfloor> in
      if x - of_int f < 1 / 2 then f
      else if 1 / 2 < x - of_int f then f + 1
      else if even f then f else f + 1)"

definition rnd :: "real \<Rightarrow> real" where
  "rnd x =
     (if x = 0 then 0
      else let e = \<lfloor>log 2 \<bar>x\<bar>\<rfloor> - 52
           in of_int (round_even (x / pow2 e)) * pow2 e)"

text \<open>
  \<open>cell_mic\<close> once more, statement by statement, with the result of every
  multiplication, addition and subtraction of doubles passed through \<open>fl\<close>, each
  operation rounding once (no fused multiply-add, no wider intermediate format).
  \<^verbatim>\<open>ceil\<close> and the constant \<^verbatim>\<open>0.5\<close> are exact. With \<open>fl = rnd\<close> this is the
  function on doubles; with the identity it is \<open>cell_mic\<close>.
\<close>

definition cell_mic_rounded :: "(real \<Rightarrow> real) \<Rightarrow> double_array \<Rightarrow> cell_type \<Rightarrow> double_array" where
  "cell_mic_rounded fl delta cell =
     (if nvec cell = 0 then delta else
      let x = ceil (fl (fl (fl (fl (gvecs cell 0 * delta 0) + fl (gvecs cell 1 * delta 1))
                            + fl (gvecs cell 2 * delta 2)) - 0.5));
          delta = delta(0 := fl (delta 0 - fl (x * rvecs cell 0)));
          delta = delta(1 := fl (delta 1 - fl (x * rvecs cell 1)));
          delta = delta(2 := fl (delta 2 - fl (x * rvecs cell 2)))
      in if nvec cell = 1 then delta else
      let x = ceil (fl (fl (fl (fl (gvecs cell 3 * delta 0) + fl (gvecs cell 4 * delta 1))
                            + fl (gvecs cell 5 * delta 2)) - 0.5));
          delta = delta(0 := fl (delta 0 - fl (x * rvecs cell 3)));
          delta = delta(1 := fl (delta 1 - fl (x * rvecs cell 4)));
          delta = delta(2 := fl (delta 2 - fl (x * rvecs cell 5)))
      in if nvec cell = 2 then delta else
      let x = ceil (fl (fl (fl (fl (gvecs cell 6 * delta 0) + fl (gvecs cell 7 * delta 1))
                            + fl (gvecs cell 8 * delta 2)) - 0.5));
          delta = delta(0 := fl (delta 0 - fl (x * rvecs cell 6)));
          delta = delta(1 := fl (delta 1 - fl (x * rvecs cell 7)));
          delta = delta(2 := fl (delta 2 - fl (x * rvecs cell 8)))
      in delta)"

definition cell_mic_b64 :: "double_array \<Rightarrow> cell_type \<Rightarrow> double_array" where
  "cell_mic_b64 = cell_mic_rounded rnd"

text \<open>
  \<open>cell_to_center\<close> returns the contents of \<^verbatim>\<open>cart\<close> and of \<^verbatim>\<open>center\<close> on return;
  the function has no assignment to \<^verbatim>\<open>cart\<close>.
\<close>

definition cell_to_center :: "double_array \<Rightarrow> cell_type \<Rightarrow> long_array \<Rightarrow> double_array \<times> long_array" where
  "cell_to_center cart cell center =
     (if nvec cell = 0 then (cart, center) else
      let center = center(0 := long_of_double
            (- ceil (gvecs cell 0 * cart 0 + gvecs cell 1 * cart 1 + gvecs cell 2 * cart 2 - 0.5)))
      in if nvec cell = 1 then (cart, center) else
      let center = center(1 := long_of_double
            (- ceil (gvecs cell 3 * cart 0 + gvecs cell 4 * cart 1 + gvecs cell 5 * cart 2 - 0.5)))
      in if nvec cell = 2 then (cart, center) else
      let center = center(2 := long_of_double
            (- ceil (gvecs cell 6 * cart 0 + gvecs cell 7 * cart 1 + gvecs cell 8 * cart 2 - 0.5)))
      in (cart, center))"

definition cell_add_vec :: "double_array \<Rightarrow> cell_type \<Rightarrow> long_array \<Rightarrow> double_array" where
  "cell_add_vec delta cell r =
     (if nvec cell = 0 then delta else
      let delta = delta(0 := delta 0 + of_int (r 0) * rvecs cell 0);
          delta = delta(1 := delta 1 + of_int (r 0) * rvecs cell 1);
          delta = delta(2 := delta 2 + of_int (r 0) * rvecs cell 2)
      in if nvec cell = 1 then delta else
      let delta = delta(0 := delta 0 + of_int (r 1) * rvecs cell 3);
          delta = delta(1 := delta 1 + of_int (r 1) * rvecs cell 4);
          delta = delta(2 := delta 2 + of_int (r 1) * rvecs cell 5)
      in if nvec cell = 2 then delta else
      let delta = delta(0 := delta 0 + of_int (r 2) * rvecs cell 6);
          delta = delta(1 := delta 1 + of_int (r 2) * rvecs cell 7);
          delta = delta(2 := delta 2 + of_int (r 2) * rvecs cell 8)
      in delta)"

subsection \<open>Accessors\<close>

definition cell_get_nvec :: "cell_type \<Rightarrow> int" where
  "cell_get_nvec cell = nvec cell"

definition cell_get_volume :: "cell_type \<Rightarrow> real" where
  "cell_get_volume cell = volume cell"

text \<open>
  The loop \<^verbatim>\<open>for (i=0; i<n; i++) out[i] = (*cell).field[i]\<close> of the four copy functions.
  Its state is the struct and the caller's array; both are returned.
\<close>

function copy_loop ::
  "(cell_type \<Rightarrow> nat \<Rightarrow> 'a) \<Rightarrow> nat \<Rightarrow> int \<Rightarrow> cell_type \<Rightarrow> (nat \<Rightarrow> 'a) \<Rightarrow> cell_type \<times> (nat \<Rightarrow> 'a)" where
  "copy_loop field i n cell out =
     (if int i < n then copy_loop field (i + 1) n cell (out(i := field cell i))
      else (cell, out))"
  by pat_completeness auto
termination
  by (relation "measure (\<lambda>(_, i, n, _, _). nat (n - int i))") auto

text \<open>\<^verbatim>\<open>full\<close> is a C \<^verbatim>\<open>int\<close> used as a truth value: any non-zero value is true.\<close>

definition cell_copy_rvecs :: "cell_type \<Rightarrow> double_array \<Rightarrow> int \<Rightarrow> cell_type \<times> double_array" where
  "cell_copy_rvecs cell rvecs_out full =
     (let n = (if full \<noteq> 0 then 9 else nvec cell * 3)
      in copy_loop rvecs 0 n cell rvecs_out)"

definition cell_copy_gvecs :: "cell_type \<Rightarrow> double_array \<Rightarrow> int \<Rightarrow> cell_type \<times> double_array" where
  "cell_copy_gvecs cell gvecs_out full =
     (let n = (if full \<noteq> 0 then 9 else nvec cell * 3)
      in copy_loop gvecs 0 n cell gvecs_out)"

definition cell_copy_rspacings :: "cell_type \<Rightarrow> xdouble_array \<Rightarrow> int \<Rightarrow> cell_type \<times> xdouble_array" where
  "cell_copy_rspacings cell rspacings_out full =
     (let n = (if full \<noteq> 0 then 3 else nvec cell)
      in copy_loop rspacings 0 n cell rspacings_out)"

definition cell_copy_gspacings :: "cell_type \<Rightarrow> xdouble_array \<Rightarrow> int \<Rightarrow> cell_type \<times> xdouble_array" where
  "cell_copy_gspacings cell gspacings_out full =
     (let n = (if full \<noteq> 0 then 3 else nvec cell)
      in copy_loop gspacings 0 n cell gspacings_out)"

definition cell_to_frac :: "cell_type \<Rightarrow> double_array \<Rightarrow> double_array \<Rightarrow> double_array" where
  "cell_to_frac cell cart frac_out =
     (let frac_out = frac_out(0 := gvecs cell 0 * cart 0 + gvecs cell 1 * cart 1 + gvecs cell 2 * cart 2);
          frac_out = frac_out(1 := gvecs cell 3 * cart 0 + gvecs cell 4 * cart 1 + gvecs cell 5 * cart 2);
          frac_out = frac_out(2 := gvecs cell 6 * cart 0 + gvecs cell 7 * cart 1 + gvecs cell 8 * cart 2)
      in frac_out)"

section \<open>The vocabulary of the specification\<close>

text \<open>
  The specification speaks of rows of the two matrices, of dot products, norms and the
  scalar triple product. These definitions follow its words; the theorems below relate
  them to the indexed sums the C code writes out.
\<close>

type_synonym vec3 = "real \<times> real \<times> real"

definition row :: "double_array \<Rightarrow> nat \<Rightarrow> vec3" where
  "row a k = (a (3 * k), a (3 * k + 1), a (3 * k + 2))"

definition vec :: "double_array \<Rightarrow> vec3" where
  "vec d = (d 0, d 1, d 2)"

fun dot :: "vec3 \<Rightarrow> vec3 \<Rightarrow> real" where
  "dot (a1, a2, a3) (b1, b2, b3) = a1 * b1 + a2 * b2 + a3 * b3"

fun cross :: "vec3 \<Rightarrow> vec3 \<Rightarrow> vec3" where
  "cross (a1, a2, a3) (b1, b2, b3) = (a2 * b3 - a3 * b2, a3 * b1 - a1 * b3, a1 * b2 - a2 * b1)"

definition euclid_norm :: "vec3 \<Rightarrow> real" where
  "euclid_norm v = sqrt (dot v v)"

definition triple_product :: "vec3 \<Rightarrow> vec3 \<Rightarrow> vec3 \<Rightarrow> real" where
  "triple_product a b c = dot a (cross b c)"

text \<open>The volume of section 4.1 of the specification, by dimensionality.\<close>

definition spec_volume :: "double_array \<Rightarrow> int \<Rightarrow> real" where
  "spec_volume rv n =
     (if n = 0 then 0
      else if n = 1 then euclid_norm (row rv 0)
      else if n = 2 then
        sqrt (max 0 ((euclid_norm (row rv 0))\<^sup>2 * (euclid_norm (row rv 1))\<^sup>2
                     - (dot (row rv 0) (row rv 1))\<^sup>2))
      else \<bar>triple_product (row rv 0) (row rv 1) (row rv 2)\<bar>)"

text \<open>
  The spacing of section 4.1: one over the norm of row \<open>k\<close>, the division being the
  one of doubles.
\<close>

definition spacing :: "double_array \<Rightarrow> nat \<Rightarrow> xdouble" where
  "spacing a k = ddiv 1 (euclid_norm (row a k))"

text \<open>
  An array whose first \<open>n\<close> elements have been overwritten by those of \<open>src\<close> and
  whose other elements are as they were.
\<close>

definition first_written :: "nat \<Rightarrow> (nat \<Rightarrow> 'a) \<Rightarrow> (nat \<Rightarrow> 'a) \<Rightarrow> (nat \<Rightarrow> 'a)" where
  "first_written n src out = (\<lambda>k. if k < n then src k else out k)"

text \<open>
  The reduction of section 4.2 along one direction \<open>k\<close>: the projection \<open>f\<close> of the
  current displacement on reciprocal row \<open>k\<close>, the count \<open>t = ceil(f - 0.5)\<close>, and
  \<open>t\<close> times direct row \<open>k\<close> taken off the three components.
\<close>

definition projection :: "cell_type \<Rightarrow> nat \<Rightarrow> double_array \<Rightarrow> real" where
  "projection cell k d = dot (row (gvecs cell) k) (vec d)"

definition translation_count :: "cell_type \<Rightarrow> nat \<Rightarrow> double_array \<Rightarrow> int" where
  "translation_count cell k d = \<lceil>projection cell k d - 1 / 2\<rceil>"

definition reduce_direction :: "cell_type \<Rightarrow> nat \<Rightarrow> double_array \<Rightarrow> double_array" where
  "reduce_direction cell k d =
     (\<lambda>j. if j < 3 then d j - of_int (translation_count cell k d) * rvecs cell (3 * k + j)
          else d j)"


text \<open>
  The sum of section 4.4, one term at a time: \<open>m\<close> times direct row \<open>k\<close> added
  to the three components.
\<close>

definition add_row :: "cell_type \<Rightarrow> nat \<Rightarrow> int \<Rightarrow> double_array \<Rightarrow> double_array" where
  "add_row cell k m d = (\<lambda>j. if j < 3 then d j + of_int m * rvecs cell (3 * k + j) else d j)"

text \<open>A displacement is reduced along direction \<open>k\<close> when its projection lies in \<open>(-1/2, 1/2]\<close>.\<close>

definition reduced :: "cell_type \<Rightarrow> nat \<Rightarrow> double_array \<Rightarrow> bool" where
  "reduced c k d \<longleftrightarrow> - 1 / 2 < projection c k d \<and> projection c k d \<le> 1 / 2"




text \<open>
  The duality of section 3 on the active rows: reciprocal row \<open>i\<close> times direct row \<open>j\<close>
  is 1 for \<open>i = j\<close> and 0 otherwise.
\<close>

definition dual :: "cell_type \<Rightarrow> bool" where
  "dual cell =
     list_all (\<lambda>i. list_all (\<lambda>j.
         dot (row (gvecs cell) i) (row (rvecs cell) j) = (if i = j then 1 else 0))
       [0..<nat (nvec cell)]) [0..<nat (nvec cell)]"

subsection \<open>Concrete cells and arrays\<close>

definition array_of :: "real list \<Rightarrow> double_array" where
  "array_of xs = (\<lambda>i. if i < length xs then xs ! i else 0)"

definition blank_cell :: cell_type where
  "blank_cell = \<lparr>nvec = 0, rvecs = (\<lambda>_. 0), gvecs = (\<lambda>_. 0),
                 rspacings = (\<lambda>_. NaN), gspacings = (\<lambda>_. NaN), volume = 0\<rparr>"

text \<open>The matrices of the cubic cell of side 10 of section 8.\<close>

definition cubic_rvecs :: double_array where
  "cubic_rvecs = array_of [10, 0, 0, 0, 10, 0, 0, 0, 10]"

definition cubic_gvecs :: double_array where
  "cubic_gvecs = array_of [1/10, 0, 0, 0, 1/10, 0, 0, 0, 1/10]"

text \<open>A chain along x with period 10; rows 1 and 2 of both matrices are zero.\<close>

definition chain_rvecs :: double_array where
  "chain_rvecs = array_of [10, 0, 0, 0, 0, 0, 0, 0, 0]"

definition chain_gvecs :: double_array where
  "chain_gvecs = array_of [1/10, 0, 0, 0, 0, 0, 0, 0, 0]"

text \<open>
  A chain along the diagonal of the xy plane: direct row 0 is \<open>(1, 1, 0)\<close>, reciprocal
  row 0 is \<open>(1/2, 1/2, 0)\<close>, so the rows are dual exactly, and every entry is a double.
\<close>

definition diagonal_rvecs :: double_array where
  "diagonal_rvecs = array_of [1, 1, 0, 0, 0, 0, 0, 0, 0]"

definition diagonal_gvecs :: double_array where
  "diagonal_gvecs = array_of [1/2, 1/2, 0, 0, 0, 0, 0, 0, 0]"

section \<open>The loops of cell\_update in closed form\<close>

declare update_copy_loop.simps [simp del]
declare update_spacings_loop.simps [simp del]
declare copy_loop.simps [simp del]

lemma row_simps:
  "row a 0 = (a 0, a 1, a 2)"
  "row a 1 = (a 3, a 4, a 5)"
  "row a 2 = (a 6, a 7, a 8)"
  "row a (Suc 0) = (a 3, a 4, a 5)"
  by (simp_all add: row_def numeral_eq_Suc)

lemma array_of_nth [simp]:
  "array_of xs i = (if i < length xs then xs ! i else 0)"
  by (simp add: array_of_def)

lemma update_copy_loop_fields:
  "nvec (update_copy_loop i rv gv c) = nvec c
   \<and> rvecs (update_copy_loop i rv gv c) k = (if i \<le> k \<and> k < 9 then rv k else rvecs c k)
   \<and> gvecs (update_copy_loop i rv gv c) k = (if i \<le> k \<and> k < 9 then gv k else gvecs c k)
   \<and> rspacings (update_copy_loop i rv gv c) = rspacings c
   \<and> gspacings (update_copy_loop i rv gv c) = gspacings c
   \<and> volume (update_copy_loop i rv gv c) = volume c"
proof (induction i rv gv c rule: update_copy_loop.induct)
  case (1 i rv gv c)
  show ?case
  proof (cases "i < 9")
    case True
    from "1.IH"[OF True] show ?thesis
      by (subst (1 2 3 4 5 6) update_copy_loop.simps) (use True in auto)
  next
    case False
    then show ?thesis
      by (subst (1 2 3 4 5 6) update_copy_loop.simps) auto
  qed
qed

lemma update_spacings_loop_fields:
  "nvec (update_spacings_loop i rv gv c) = nvec c
   \<and> rvecs (update_spacings_loop i rv gv c) = rvecs c
   \<and> gvecs (update_spacings_loop i rv gv c) = gvecs c
   \<and> rspacings (update_spacings_loop i rv gv c) k
        = (if i \<le> k \<and> k < 3 then spacing gv k else rspacings c k)
   \<and> gspacings (update_spacings_loop i rv gv c) k
        = (if i \<le> k \<and> k < 3 then spacing rv k else gspacings c k)
   \<and> volume (update_spacings_loop i rv gv c) = volume c"
proof (induction i rv gv c rule: update_spacings_loop.induct)
  case (1 i rv gv c)
  show ?case
  proof (cases "i < 3")
    case True
    from "1.IH"[OF True] show ?thesis
      by (subst (1 2 3 4 5 6) update_spacings_loop.simps)
         (use True in \<open>auto simp: spacing_def euclid_norm_def row_def\<close>)
  next
    case False
    then show ?thesis
      by (subst (1 2 3 4 5 6) update_spacings_loop.simps) auto
  qed
qed

lemma update_volume_fields:
  "nvec (update_volume rv n c) = nvec c"
  "rvecs (update_volume rv n c) = rvecs c"
  "gvecs (update_volume rv n c) = gvecs c"
  "rspacings (update_volume rv n c) = rspacings c"
  "gspacings (update_volume rv n c) = gspacings c"
  by (simp_all add: update_volume_def Let_def)

lemma cell_update_fields:
  "nvec (cell_update c rv gv n) = n"
  "rvecs (cell_update c rv gv n) k = (if k < 9 then rv k else rvecs c k)"
  "gvecs (cell_update c rv gv n) k = (if k < 9 then gv k else gvecs c k)"
  "rspacings (cell_update c rv gv n) k = (if k < 3 then spacing gv k else rspacings c k)"
  "gspacings (cell_update c rv gv n) k = (if k < 3 then spacing rv k else gspacings c k)"
  by (simp_all add: cell_update_def update_volume_fields
        update_spacings_loop_fields update_copy_loop_fields)

lemma cell_update_volume_eq:
  "volume (cell_update c rv gv n) = volume (update_volume rv n c)"
  by (simp add: cell_update_def update_volume_def Let_def
        update_spacings_loop_fields update_copy_loop_fields)

section \<open>The volume\<close>

lemma volume_update_volume:
  assumes "n \<in> {0, 1, 2, 3}"
  shows "volume (update_volume rv n c) = spec_volume rv n"
proof -
  consider "n = 0" | "n = 1" | "n = 2" | "n = 3" using assms by auto
  then show ?thesis
  proof cases
    case 1
    then show ?thesis by (simp add: update_volume_def spec_volume_def)
  next
    case 2
    then show ?thesis
      by (simp add: update_volume_def spec_volume_def euclid_norm_def row_simps)
  next
    case 3
    define aa where "aa = rv 0 * rv 0 + rv 1 * rv 1 + rv 2 * rv 2"
    define bb where "bb = rv 3 * rv 3 + rv 4 * rv 4 + rv 5 * rv 5"
    define ab where "ab = rv 0 * rv 3 + rv 1 * rv 4 + rv 2 * rv 5"
    have l: "volume (update_volume rv n c)
           = (if aa * bb - ab * ab > 0 then sqrt (aa * bb - ab * ab) else 0)"
      using 3 by (simp add: update_volume_def Let_def aa_def bb_def ab_def)
    have r: "spec_volume rv n = sqrt (max 0 (aa * bb - ab\<^sup>2))"
      using 3
      by (simp add: spec_volume_def euclid_norm_def row_simps aa_def bb_def ab_def)
    show ?thesis unfolding l r by (simp add: max_def power2_eq_square)
  next
    case 4
    then show ?thesis
      by (simp add: update_volume_def spec_volume_def triple_product_def row_simps
            algebra_simps)
  qed
qed

lemma spec_volume_nonneg: "0 \<le> spec_volume rv n"
  by (simp add: spec_volume_def euclid_norm_def row_def)

text \<open>
  Claim C1. After \<open>cell_update\<close> with \<open>nvec\<close> in \<open>{0,1,2,3}\<close> the stored volume is the
  volume of the specification: 0 for \<open>nvec = 0\<close>, the norm of direct row 0 for
  \<open>nvec = 1\<close>, \<open>sqrt(max(0, |a|\<^sup>2|b|\<^sup>2 - (a.b)\<^sup>2))\<close> of rows 0 and 1 for \<open>nvec = 2\<close>, the
  absolute value of the scalar triple product of rows 0, 1, 2 for \<open>nvec = 3\<close>. This is
  so for the rows passed in and for the rows stored, and the volume is never negative.
\<close>

theorem cell_update_volume:
  assumes "n \<in> {0, 1, 2, 3}"
  shows "volume (cell_update c rv gv n) = spec_volume rv n
       \<and> volume (cell_update c rv gv n)
           = spec_volume (rvecs (cell_update c rv gv n)) (nvec (cell_update c rv gv n))
       \<and> 0 \<le> volume (cell_update c rv gv n)"
proof -
  let ?c = "cell_update c rv gv n"
  have v: "volume ?c = spec_volume rv n"
    by (simp only: cell_update_volume_eq volume_update_volume[OF assms])
  have "spec_volume (rvecs ?c) n = spec_volume rv n"
    by (simp add: spec_volume_def row_def cell_update_fields)
  with v spec_volume_nonneg[of rv n] show ?thesis
    by (simp add: cell_update_fields)
qed

theorem cell_update_volume_witness:
  "(3::int) \<in> {0, 1, 2, 3} \<and> (2::int) \<in> {0, 1, 2, 3} \<and> (1::int) \<in> {0, 1, 2, 3}
   \<and> (0::int) \<in> {0, 1, 2, 3}
   \<and> volume (cell_update blank_cell cubic_rvecs cubic_gvecs 3) = 1000
   \<and> volume (cell_update blank_cell cubic_rvecs cubic_gvecs 2) = 100
   \<and> volume (cell_update blank_cell cubic_rvecs cubic_gvecs 1) = 10
   \<and> volume (cell_update blank_cell cubic_rvecs cubic_gvecs 0) = 0"
  using cell_update_volume [of 3 blank_cell cubic_rvecs cubic_gvecs]
    cell_update_volume [of 2 blank_cell cubic_rvecs cubic_gvecs]
    cell_update_volume [of 1 blank_cell cubic_rvecs cubic_gvecs]
    cell_update_volume [of 0 blank_cell cubic_rvecs cubic_gvecs]
  by (simp add: spec_volume_def row_simps triple_product_def euclid_norm_def cubic_rvecs_def)

section \<open>The spacings\<close>

lemma spacing_zero_row: "row a k = (0, 0, 0) \<Longrightarrow> spacing a k = PosInf"
  by (simp add: spacing_def euclid_norm_def ddiv_def)

lemma euclid_norm_eq_0: "euclid_norm v = 0 \<longleftrightarrow> v = (0, 0, 0)"
proof (cases v)
  case (fields a b c)
  have "a * a + b * b + c * c = 0 \<longleftrightarrow> a = 0 \<and> b = 0 \<and> c = 0"
    by (simp add: add_nonneg_eq_0_iff)
  then show ?thesis
    by (simp add: fields euclid_norm_def)
qed

lemma spacing_nonzero_row:
  "row a k \<noteq> (0, 0, 0) \<Longrightarrow> spacing a k = Finite (1 / euclid_norm (row a k))"
  by (simp add: spacing_def ddiv_def euclid_norm_eq_0)

text \<open>
  Claim C8. Whatever \<open>nvec\<close> is, \<open>cell_update\<close> recomputes all three slots of both
  spacings: \<open>rspacings[i]\<close> is one over the norm of row \<open>i\<close> of \<open>gvecs\<close> and
  \<open>gspacings[i]\<close> one over the norm of row \<open>i\<close> of \<open>rvecs\<close>, for \<open>i\<close> in 0..2. The
  computation is total: an all-zero row gives the spacing plus infinity, any other row
  the finite quotient.
\<close>

theorem cell_update_spacings:
  assumes "i < 3"
  shows "rspacings (cell_update c rv gv n) i = spacing gv i
       \<and> gspacings (cell_update c rv gv n) i = spacing rv i
       \<and> (row gv i = (0, 0, 0) \<longrightarrow> rspacings (cell_update c rv gv n) i = PosInf)
       \<and> (row rv i = (0, 0, 0) \<longrightarrow> gspacings (cell_update c rv gv n) i = PosInf)
       \<and> (row gv i \<noteq> (0, 0, 0) \<longrightarrow>
            rspacings (cell_update c rv gv n) i = Finite (1 / euclid_norm (row gv i)))
       \<and> (row rv i \<noteq> (0, 0, 0) \<longrightarrow>
            gspacings (cell_update c rv gv n) i = Finite (1 / euclid_norm (row rv i)))"
  using assms
  by (simp add: cell_update_fields spacing_zero_row spacing_nonzero_row)

theorem cell_update_spacings_witness:
  "(0::nat) < 3 \<and> (2::nat) < 3
   \<and> row chain_gvecs 2 = (0, 0, 0) \<and> row chain_rvecs 2 = (0, 0, 0)
   \<and> row chain_gvecs 0 \<noteq> (0, 0, 0) \<and> row chain_rvecs 0 \<noteq> (0, 0, 0)
   \<and> rspacings (cell_update blank_cell chain_rvecs chain_gvecs 1) 0 = Finite 10
   \<and> gspacings (cell_update blank_cell chain_rvecs chain_gvecs 1) 0 = Finite (1 / 10)
   \<and> rspacings (cell_update blank_cell chain_rvecs chain_gvecs 1) 2 = PosInf
   \<and> gspacings (cell_update blank_cell chain_rvecs chain_gvecs 1) 2 = PosInf"
  using cell_update_spacings [of 0 blank_cell chain_rvecs chain_gvecs 1]
    cell_update_spacings [of 2 blank_cell chain_rvecs chain_gvecs 1]
  by (simp add: spacing_def ddiv_def row_simps euclid_norm_def chain_rvecs_def chain_gvecs_def
        real_sqrt_divide)

section \<open>A dimensionality outside 0..3\<close>

text \<open>
  Claim C3, as stated, asks that \<open>cell_update\<close> with \<open>nvec\<close> outside \<open>{0,1,2,3}\<close> fail
  and leave the stored state unchanged. The function returns \<^verbatim>\<open>void\<close> and has no
  failure; with \<open>nvec = 4\<close> the struct is not what it was.
\<close>

theorem cell_update_invalid_dimension_counterexample:
  "cell_update blank_cell cubic_rvecs cubic_gvecs 4 \<noteq> blank_cell"
proof
  assume "cell_update blank_cell cubic_rvecs cubic_gvecs 4 = blank_cell"
  then have "nvec (cell_update blank_cell cubic_rvecs cubic_gvecs 4) = nvec blank_cell"
    by simp
  then show False
    by (simp add: cell_update_fields blank_cell_def)
qed

text \<open>
  Claim C3, amended. With \<open>nvec\<close> outside \<open>{0,1,2,3}\<close> the call returns as for any
  other value: \<open>nvec\<close>, both matrices and all spacings are stored, and the volume alone
  keeps its previous value, the \<^verbatim>\<open>switch\<close> having no branch for it.
\<close>

theorem cell_update_other_dimension:
  assumes "n \<notin> {0, 1, 2, 3}"
  shows "nvec (cell_update c rv gv n) = n
       \<and> (\<forall>k<9. rvecs (cell_update c rv gv n) k = rv k
               \<and> gvecs (cell_update c rv gv n) k = gv k)
       \<and> (\<forall>k<3. rspacings (cell_update c rv gv n) k = spacing gv k
               \<and> gspacings (cell_update c rv gv n) k = spacing rv k)
       \<and> volume (cell_update c rv gv n) = volume c"
  using assms
  by (simp add: cell_update_fields cell_update_volume_eq update_volume_def)

theorem cell_update_other_dimension_witness:
  "(4::int) \<notin> {0, 1, 2, 3}
   \<and> nvec (cell_update (blank_cell\<lparr>volume := 7\<rparr>) cubic_rvecs cubic_gvecs 4) = 4
   \<and> rvecs (cell_update (blank_cell\<lparr>volume := 7\<rparr>) cubic_rvecs cubic_gvecs 4) 8 = 10
   \<and> gvecs (cell_update (blank_cell\<lparr>volume := 7\<rparr>) cubic_rvecs cubic_gvecs 4) 8 = 1 / 10
   \<and> rspacings (cell_update (blank_cell\<lparr>volume := 7\<rparr>) cubic_rvecs cubic_gvecs 4) 2 = Finite 10
   \<and> gspacings (cell_update (blank_cell\<lparr>volume := 7\<rparr>) cubic_rvecs cubic_gvecs 4) 2 = Finite (1 / 10)
   \<and> volume (cell_update (blank_cell\<lparr>volume := 7\<rparr>) cubic_rvecs cubic_gvecs 4) = 7"
  using cell_update_other_dimension [of 4 "blank_cell\<lparr>volume := 7\<rparr>" cubic_rvecs cubic_gvecs]
  by (simp add: spacing_def ddiv_def row_simps euclid_norm_def cubic_rvecs_def cubic_gvecs_def
        real_sqrt_divide)

section \<open>The copy accessors\<close>

lemma copy_loop_eq:
  "copy_loop field i n cell out
     = (cell, \<lambda>k. if i \<le> k \<and> int k < n then field cell k else out k)"
proof (induction field i n cell out rule: copy_loop.induct)
  case (1 field i n cell out)
  show ?case
  proof (cases "int i < n")
    case True
    show ?thesis
      apply (subst copy_loop.simps)
      apply (simp only: True if_True "1.IH"[OF True])
      apply (use True in \<open>auto simp: fun_eq_iff\<close>)
      done
  next
    case False
    then show ?thesis
      by (subst copy_loop.simps) (auto simp: fun_eq_iff)
  qed
qed

lemma copy_loop_first_written:
  "0 \<le> n \<Longrightarrow> copy_loop field 0 n cell out = (cell, first_written (nat n) (field cell) out)"
  by (auto simp: copy_loop_eq first_written_def fun_eq_iff)

text \<open>
  Claim C7. For a cell with \<open>nvec\<close> in \<open>{0,1,2,3}\<close>: with \<open>full\<close> true each copy
  accessor overwrites the first 9 (vectors) or 3 (spacings) elements of the caller's
  array whatever \<open>nvec\<close> is; with \<open>full\<close> false it overwrites the first \<open>nvec*3\<close> or
  \<open>nvec\<close> elements and no other; these elements are the ones the \<open>full\<close> copy has in
  the same places; the cell is returned as it was.
\<close>

theorem cell_copy_modes:
  assumes "nvec c \<in> {0, 1, 2, 3}"
  shows "(full \<noteq> 0 \<longrightarrow>
            cell_copy_rvecs c dv full = (c, first_written 9 (rvecs c) dv)
          \<and> cell_copy_gvecs c dv full = (c, first_written 9 (gvecs c) dv)
          \<and> cell_copy_rspacings c xv full = (c, first_written 3 (rspacings c) xv)
          \<and> cell_copy_gspacings c xv full = (c, first_written 3 (gspacings c) xv))
       \<and> cell_copy_rvecs c dv 0 = (c, first_written (nat (nvec c) * 3) (rvecs c) dv)
       \<and> cell_copy_gvecs c dv 0 = (c, first_written (nat (nvec c) * 3) (gvecs c) dv)
       \<and> cell_copy_rspacings c xv 0 = (c, first_written (nat (nvec c)) (rspacings c) xv)
       \<and> cell_copy_gspacings c xv 0 = (c, first_written (nat (nvec c)) (gspacings c) xv)
       \<and> (full \<noteq> 0 \<longrightarrow>
           (\<forall>k < nat (nvec c) * 3.
               snd (cell_copy_rvecs c dv 0) k = snd (cell_copy_rvecs c dv' full) k
             \<and> snd (cell_copy_gvecs c dv 0) k = snd (cell_copy_gvecs c dv' full) k)
         \<and> (\<forall>k < nat (nvec c).
               snd (cell_copy_rspacings c xv 0) k = snd (cell_copy_rspacings c xv' full) k
             \<and> snd (cell_copy_gspacings c xv 0) k = snd (cell_copy_gspacings c xv' full) k))"
proof -
  have n: "0 \<le> nvec c" "nat (nvec c * 3) = nat (nvec c) * 3" "nat (nvec c) \<le> 3"
    using assms by auto
  show ?thesis
    using n
    by (simp add: cell_copy_rvecs_def cell_copy_gvecs_def cell_copy_rspacings_def
          cell_copy_gspacings_def copy_loop_first_written first_written_def)
qed

theorem cell_copy_modes_witness:
  "nvec (cell_update blank_cell cubic_rvecs cubic_gvecs 2) \<in> {0, 1, 2, 3} \<and> (1::int) \<noteq> 0
   \<and> (4::nat) < nat (nvec (cell_update blank_cell cubic_rvecs cubic_gvecs 2)) * 3
   \<and> (1::nat) < nat (nvec (cell_update blank_cell cubic_rvecs cubic_gvecs 2))
   \<and> snd (cell_copy_rvecs (cell_update blank_cell cubic_rvecs cubic_gvecs 2) (\<lambda>_. 7) 1) 8 = 10
   \<and> snd (cell_copy_rvecs (cell_update blank_cell cubic_rvecs cubic_gvecs 2) (\<lambda>_. 7) 0) 4 = 10
   \<and> snd (cell_copy_rvecs (cell_update blank_cell cubic_rvecs cubic_gvecs 2) (\<lambda>_. 7) 0) 8 = 7
   \<and> snd (cell_copy_rvecs (cell_update blank_cell cubic_rvecs cubic_gvecs 2) (\<lambda>_. 7) 0) 4
       = snd (cell_copy_rvecs (cell_update blank_cell cubic_rvecs cubic_gvecs 2) (\<lambda>_. 5) 1) 4
   \<and> snd (cell_copy_gspacings (cell_update blank_cell cubic_rvecs cubic_gvecs 2) (\<lambda>_. NaN) 0) 1
       = snd (cell_copy_gspacings (cell_update blank_cell cubic_rvecs cubic_gvecs 2) (\<lambda>_. PosInf) 1) 1
   \<and> snd (cell_copy_gspacings (cell_update blank_cell cubic_rvecs cubic_gvecs 2) (\<lambda>_. NaN) 0) 2 = NaN
   \<and> fst (cell_copy_rvecs (cell_update blank_cell cubic_rvecs cubic_gvecs 2) (\<lambda>_. 7) 0)
       = cell_update blank_cell cubic_rvecs cubic_gvecs 2"
  using cell_copy_modes [of "cell_update blank_cell cubic_rvecs cubic_gvecs 2" 1
      "\<lambda>_. 7" "\<lambda>_. NaN" "\<lambda>_. 5" "\<lambda>_. PosInf"]
    cell_copy_modes [of "cell_update blank_cell cubic_rvecs cubic_gvecs 2" 1
      "\<lambda>_. 5" "\<lambda>_. PosInf" "\<lambda>_. 5" "\<lambda>_. PosInf"]
  by (simp add: cell_update_fields first_written_def cubic_rvecs_def)

section \<open>No periodic direction\<close>

text \<open>
  Claim C6. For a cell with \<open>nvec = 0\<close>, \<open>cell_mic\<close> returns the displacement as it
  was, \<open>cell_to_center\<close> leaves both the cartesian vector and the center array as they
  were, and \<open>cell_add_vec\<close> returns the vector as it was, whatever the inputs.
\<close>

theorem cell_nvec0_noop:
  assumes "nvec c = 0"
  shows "cell_mic d c = d \<and> cell_to_center cart c center = (cart, center)
       \<and> cell_add_vec d c r = d"
  using assms by (simp add: cell_mic_def cell_to_center_def cell_add_vec_def)

theorem cell_nvec0_noop_witness:
  "nvec (cell_update blank_cell cubic_rvecs cubic_gvecs 0) = 0
   \<and> cell_mic (array_of [7, -3, 12]) (cell_update blank_cell cubic_rvecs cubic_gvecs 0)
       = array_of [7, -3, 12]
   \<and> cell_to_center (array_of [7, -3, 12]) (cell_update blank_cell cubic_rvecs cubic_gvecs 0) (\<lambda>_. 42)
       = (array_of [7, -3, 12], \<lambda>_. 42)
   \<and> cell_add_vec (array_of [7, -3, 12]) (cell_update blank_cell cubic_rvecs cubic_gvecs 0) (\<lambda>_. 1)
       = array_of [7, -3, 12]"
  using cell_nvec0_noop [of "cell_update blank_cell cubic_rvecs cubic_gvecs 0"
      "array_of [7, -3, 12]" "array_of [7, -3, 12]" "\<lambda>_. 42" "\<lambda>_. 1"]
  by (simp add: cell_update_fields)

section \<open>cell\_to\_center\<close>

lemma long_of_double_minus_ceil: "long_of_double (- ceil x) = - \<lceil>x\<rceil>"
proof -
  have "- ceil x = of_int (- \<lceil>x\<rceil>)"
    by (simp add: ceil_def)
  then show ?thesis
    unfolding long_of_double_def by (simp only: floor_of_int ceiling_of_int if_cancel)
qed

lemma projection_simps:
  "projection c 0 d = gvecs c 0 * d 0 + gvecs c 1 * d 1 + gvecs c 2 * d 2"
  "projection c 1 d = gvecs c 3 * d 0 + gvecs c 4 * d 1 + gvecs c 5 * d 2"
  "projection c 2 d = gvecs c 6 * d 0 + gvecs c 7 * d 1 + gvecs c 8 * d 2"
  "projection c (Suc 0) d = gvecs c 3 * d 0 + gvecs c 4 * d 1 + gvecs c 5 * d 2"
  by (simp_all add: projection_def row_simps vec_def)

lemma cell_to_center_fst: "fst (cell_to_center cart c center) = cart"
  by (simp add: cell_to_center_def Let_def)

lemma cell_to_center_snd:
  "snd (cell_to_center cart c center) =
     (if nvec c = 0 then center
      else if nvec c = 1 then center(0 := - \<lceil>projection c 0 cart - 1 / 2\<rceil>)
      else if nvec c = 2 then center(0 := - \<lceil>projection c 0 cart - 1 / 2\<rceil>,
                                     1 := - \<lceil>projection c 1 cart - 1 / 2\<rceil>)
      else center(0 := - \<lceil>projection c 0 cart - 1 / 2\<rceil>,
                  1 := - \<lceil>projection c 1 cart - 1 / 2\<rceil>,
                  2 := - \<lceil>projection c 2 cart - 1 / 2\<rceil>))"
  by (simp add: cell_to_center_def Let_def long_of_double_minus_ceil projection_simps)

lemma less_3_cases: "k < (3::nat) \<Longrightarrow> k = 0 \<or> k = 1 \<or> k = 2"
  by arith

text \<open>
  Claim C9. For a cell with \<open>nvec\<close> in \<open>{1,2,3}\<close>, \<open>cell_to_center\<close> sets
  \<open>center[k] = -ceil(gvecs[k].cart - 0.5)\<close> for every active direction \<open>k < nvec\<close>,
  each computed from the \<open>cart\<close> that was passed in, and \<open>cart\<close> is as it was on return.
\<close>

theorem cell_to_center_counts:
  assumes "nvec c \<in> {1, 2, 3}"
  shows "(\<forall>k. int k < nvec c \<longrightarrow>
            snd (cell_to_center cart c center) k = - \<lceil>projection c k cart - 1 / 2\<rceil>)
       \<and> fst (cell_to_center cart c center) = cart"
proof (intro conjI allI impI)
  fix k assume k: "int k < nvec c"
  with assms have "k < 3" by auto
  then have "k = 0 \<or> k = 1 \<or> k = 2" by (rule less_3_cases)
  with k assms show "snd (cell_to_center cart c center) k = - \<lceil>projection c k cart - 1 / 2\<rceil>"
    unfolding cell_to_center_snd by auto
qed (rule cell_to_center_fst)

theorem cell_to_center_counts_witness:
  "nvec (cell_update blank_cell cubic_rvecs cubic_gvecs 3) \<in> {1, 2, 3}
   \<and> int 0 < nvec (cell_update blank_cell cubic_rvecs cubic_gvecs 3)
   \<and> int 1 < nvec (cell_update blank_cell cubic_rvecs cubic_gvecs 3)
   \<and> int 2 < nvec (cell_update blank_cell cubic_rvecs cubic_gvecs 3)
   \<and> snd (cell_to_center (array_of [7, -3, 12])
            (cell_update blank_cell cubic_rvecs cubic_gvecs 3) (\<lambda>_. 42)) 0 = - 1
   \<and> snd (cell_to_center (array_of [7, -3, 12])
            (cell_update blank_cell cubic_rvecs cubic_gvecs 3) (\<lambda>_. 42)) 1 = 0
   \<and> snd (cell_to_center (array_of [7, -3, 12])
            (cell_update blank_cell cubic_rvecs cubic_gvecs 3) (\<lambda>_. 42)) 2 = - 1
   \<and> fst (cell_to_center (array_of [7, -3, 12])
            (cell_update blank_cell cubic_rvecs cubic_gvecs 3) (\<lambda>_. 42)) = array_of [7, -3, 12]"
  using cell_to_center_counts [of "cell_update blank_cell cubic_rvecs cubic_gvecs 3"
      "array_of [7, -3, 12]" "\<lambda>_. 42"]
  by (simp add: cell_update_fields projection_simps cubic_gvecs_def ceiling_eq_iff)

text \<open>
  Claim C10. \<open>cell_to_center\<close> writes the entries \<open>center[0..nvec-1]\<close> only: every
  \<open>center[k]\<close> with \<open>k \<ge> nvec\<close> is as the caller supplied it, and for \<open>nvec = 0\<close> the
  whole array is.
\<close>

theorem cell_to_center_frame:
  assumes "0 \<le> nvec c"
  shows "(\<forall>k. nvec c \<le> int k \<longrightarrow> snd (cell_to_center cart c center) k = center k)
       \<and> (nvec c = 0 \<longrightarrow> snd (cell_to_center cart c center) = center)"
  using assms unfolding cell_to_center_snd by auto

theorem cell_to_center_frame_witness:
  "0 \<le> nvec (cell_update blank_cell cubic_rvecs cubic_gvecs 2)
   \<and> nvec (cell_update blank_cell cubic_rvecs cubic_gvecs 2) \<le> int 2
   \<and> snd (cell_to_center (array_of [7, -3, 12])
            (cell_update blank_cell cubic_rvecs cubic_gvecs 2) (\<lambda>_. 42)) 2 = 42
   \<and> nvec (cell_update blank_cell cubic_rvecs cubic_gvecs 0) = 0
   \<and> snd (cell_to_center (array_of [7, -3, 12])
            (cell_update blank_cell cubic_rvecs cubic_gvecs 0) (\<lambda>_. 42)) = (\<lambda>_. 42)"
  using cell_to_center_frame [of "cell_update blank_cell cubic_rvecs cubic_gvecs 2"
      "array_of [7, -3, 12]" "\<lambda>_. 42"]
    cell_to_center_frame [of "cell_update blank_cell cubic_rvecs cubic_gvecs 0"
      "array_of [7, -3, 12]" "\<lambda>_. 42"]
  by (simp add: cell_update_fields)

section \<open>cell\_mic as the sequential reduction\<close>

lemma upt_small: "[0..<1] = [0]" "[0..<2] = [0, 1]" "[0..<3] = [0, 1, 2]"
  by (simp_all add: upt_rec)

lemma reduce_direction_0:
  "reduce_direction c 0 d =
     d(0 := d 0 - of_int (translation_count c 0 d) * rvecs c 0,
       1 := d 1 - of_int (translation_count c 0 d) * rvecs c 1,
       2 := d 2 - of_int (translation_count c 0 d) * rvecs c 2)"
proof (rule ext)
  fix j :: nat
  consider "j = 0" | "j = 1" | "j = 2" | "3 \<le> j" by arith
  then show "reduce_direction c 0 d j =
     (d(0 := d 0 - of_int (translation_count c 0 d) * rvecs c 0,
        1 := d 1 - of_int (translation_count c 0 d) * rvecs c 1,
        2 := d 2 - of_int (translation_count c 0 d) * rvecs c 2)) j"
    by cases (simp_all add: reduce_direction_def del: add_2_eq_Suc add_2_eq_Suc')
qed

lemma reduce_direction_1:
  "reduce_direction c 1 d =
     d(0 := d 0 - of_int (translation_count c 1 d) * rvecs c 3,
       1 := d 1 - of_int (translation_count c 1 d) * rvecs c 4,
       2 := d 2 - of_int (translation_count c 1 d) * rvecs c 5)"
proof (rule ext)
  fix j :: nat
  consider "j = 0" | "j = 1" | "j = 2" | "3 \<le> j" by arith
  then show "reduce_direction c 1 d j =
     (d(0 := d 0 - of_int (translation_count c 1 d) * rvecs c 3,
        1 := d 1 - of_int (translation_count c 1 d) * rvecs c 4,
        2 := d 2 - of_int (translation_count c 1 d) * rvecs c 5)) j"
    by cases (simp_all add: reduce_direction_def del: add_2_eq_Suc add_2_eq_Suc')
qed

lemma reduce_direction_2:
  "reduce_direction c 2 d =
     d(0 := d 0 - of_int (translation_count c 2 d) * rvecs c 6,
       1 := d 1 - of_int (translation_count c 2 d) * rvecs c 7,
       2 := d 2 - of_int (translation_count c 2 d) * rvecs c 8)"
proof (rule ext)
  fix j :: nat
  consider "j = 0" | "j = 1" | "j = 2" | "3 \<le> j" by arith
  then show "reduce_direction c 2 d j =
     (d(0 := d 0 - of_int (translation_count c 2 d) * rvecs c 6,
        1 := d 1 - of_int (translation_count c 2 d) * rvecs c 7,
        2 := d 2 - of_int (translation_count c 2 d) * rvecs c 8)) j"
    by cases (simp_all add: reduce_direction_def del: add_2_eq_Suc add_2_eq_Suc')
qed

lemma translation_count_simps:
  "translation_count c 0 d = \<lceil>gvecs c 0 * d 0 + gvecs c 1 * d 1 + gvecs c 2 * d 2 - 1 / 2\<rceil>"
  "translation_count c 1 d = \<lceil>gvecs c 3 * d 0 + gvecs c 4 * d 1 + gvecs c 5 * d 2 - 1 / 2\<rceil>"
  "translation_count c 2 d = \<lceil>gvecs c 6 * d 0 + gvecs c 7 * d 1 + gvecs c 8 * d 2 - 1 / 2\<rceil>"
  by (simp_all add: translation_count_def projection_simps)

lemma mic_stage_0:
  "(let x = ceil (gvecs c 0 * d 0 + gvecs c 1 * d 1 + gvecs c 2 * d 2 - 0.5);
        delta = d(0 := d 0 - x * rvecs c 0);
        delta = delta(1 := delta 1 - x * rvecs c 1);
        delta = delta(2 := delta 2 - x * rvecs c 2)
    in F delta) = F (reduce_direction c 0 d)"
  unfolding reduce_direction_0 translation_count_simps
  by (simp add: Let_def ceil_def)

lemma mic_stage_1:
  "(let x = ceil (gvecs c 3 * d 0 + gvecs c 4 * d 1 + gvecs c 5 * d 2 - 0.5);
        delta = d(0 := d 0 - x * rvecs c 3);
        delta = delta(1 := delta 1 - x * rvecs c 4);
        delta = delta(2 := delta 2 - x * rvecs c 5)
    in F delta) = F (reduce_direction c 1 d)"
  unfolding reduce_direction_1 translation_count_simps
  by (simp add: Let_def ceil_def)

lemma mic_stage_2:
  "(let x = ceil (gvecs c 6 * d 0 + gvecs c 7 * d 1 + gvecs c 8 * d 2 - 0.5);
        delta = d(0 := d 0 - x * rvecs c 6);
        delta = delta(1 := delta 1 - x * rvecs c 7);
        delta = delta(2 := delta 2 - x * rvecs c 8)
    in F delta) = F (reduce_direction c 2 d)"
  unfolding reduce_direction_2 translation_count_simps
  by (simp add: Let_def ceil_def)

lemma cell_mic_stages:
  "cell_mic d c =
     (if nvec c = 0 then d
      else if nvec c = 1 then reduce_direction c 0 d
      else if nvec c = 2 then reduce_direction c 1 (reduce_direction c 0 d)
      else reduce_direction c 2 (reduce_direction c 1 (reduce_direction c 0 d)))"
  unfolding cell_mic_def
  by (simp only: mic_stage_0 mic_stage_1 mic_stage_2)

lemma traced_stage_0:
  "(let n = \<lceil>gvecs c 0 * d 0 + gvecs c 1 * d 1 + gvecs c 2 * d 2 - 0.5\<rceil>;
        t = t0(0 := n);
        x = of_int n;
        delta = d(0 := d 0 - x * rvecs c 0);
        delta = delta(1 := delta 1 - x * rvecs c 1);
        delta = delta(2 := delta 2 - x * rvecs c 2)
    in F delta t) = F (reduce_direction c 0 d) (t0(0 := translation_count c 0 d))"
  unfolding reduce_direction_0 translation_count_simps
  by (simp add: Let_def)

lemma traced_stage_1:
  "(let n = \<lceil>gvecs c 3 * d 0 + gvecs c 4 * d 1 + gvecs c 5 * d 2 - 0.5\<rceil>;
        t = t0(1 := n);
        x = of_int n;
        delta = d(0 := d 0 - x * rvecs c 3);
        delta = delta(1 := delta 1 - x * rvecs c 4);
        delta = delta(2 := delta 2 - x * rvecs c 5)
    in F delta t) = F (reduce_direction c 1 d) (t0(1 := translation_count c 1 d))"
  unfolding reduce_direction_1 translation_count_simps
  by (simp add: Let_def)

lemma traced_stage_2:
  "(let n = \<lceil>gvecs c 6 * d 0 + gvecs c 7 * d 1 + gvecs c 8 * d 2 - 0.5\<rceil>;
        t = t0(2 := n);
        x = of_int n;
        delta = d(0 := d 0 - x * rvecs c 6);
        delta = delta(1 := delta 1 - x * rvecs c 7);
        delta = delta(2 := delta 2 - x * rvecs c 8)
    in F delta t) = F (reduce_direction c 2 d) (t0(2 := translation_count c 2 d))"
  unfolding reduce_direction_2 translation_count_simps
  by (simp add: Let_def)

lemma cell_mic_traced_stages:
  "cell_mic_traced d c =
     (if nvec c = 0 then (d, \<lambda>_. 0)
      else if nvec c = 1 then
        (reduce_direction c 0 d, (\<lambda>_. 0)(0 := translation_count c 0 d))
      else if nvec c = 2 then
        (reduce_direction c 1 (reduce_direction c 0 d),
         (\<lambda>_. 0)(0 := translation_count c 0 d,
                  1 := translation_count c 1 (reduce_direction c 0 d)))
      else
        (reduce_direction c 2 (reduce_direction c 1 (reduce_direction c 0 d)),
         (\<lambda>_. 0)(0 := translation_count c 0 d,
                  1 := translation_count c 1 (reduce_direction c 0 d),
                  2 := translation_count c 2 (reduce_direction c 1 (reduce_direction c 0 d)))))"
  unfolding cell_mic_traced_def
  by (subst traced_stage_2, subst traced_stage_1, subst traced_stage_0) (rule refl)

lemma cell_mic_traced_fst: "fst (cell_mic_traced d c) = cell_mic d c"
  by (simp add: cell_mic_traced_stages cell_mic_stages)


lemma translation_count_nearest:
  "of_int (translation_count c k e) - 1 / 2 < projection c k e
   \<and> projection c k e \<le> of_int (translation_count c k e) + 1 / 2"
  unfolding translation_count_def by linarith





section \<open>Reduction and translation: the round trip\<close>

lemma add_row_0:
  "add_row c 0 m d =
     d(0 := d 0 + of_int m * rvecs c 0,
       1 := d 1 + of_int m * rvecs c 1,
       2 := d 2 + of_int m * rvecs c 2)"
proof (rule ext)
  fix j :: nat
  consider "j = 0" | "j = 1" | "j = 2" | "3 \<le> j" by arith
  then show "add_row c 0 m d j =
     (d(0 := d 0 + of_int m * rvecs c 0,
        1 := d 1 + of_int m * rvecs c 1,
        2 := d 2 + of_int m * rvecs c 2)) j"
    by cases (simp_all add: add_row_def del: add_2_eq_Suc add_2_eq_Suc')
qed

lemma add_stage_0:
  "(let delta = d(0 := d 0 + of_int (r 0) * rvecs c 0);
        delta = delta(1 := delta 1 + of_int (r 0) * rvecs c 1);
        delta = delta(2 := delta 2 + of_int (r 0) * rvecs c 2)
    in F delta) = F (add_row c 0 (r 0) d)"
  unfolding add_row_0
  by (simp add: Let_def)

lemma add_row_1:
  "add_row c 1 m d =
     d(0 := d 0 + of_int m * rvecs c 3,
       1 := d 1 + of_int m * rvecs c 4,
       2 := d 2 + of_int m * rvecs c 5)"
proof (rule ext)
  fix j :: nat
  consider "j = 0" | "j = 1" | "j = 2" | "3 \<le> j" by arith
  then show "add_row c 1 m d j =
     (d(0 := d 0 + of_int m * rvecs c 3,
        1 := d 1 + of_int m * rvecs c 4,
        2 := d 2 + of_int m * rvecs c 5)) j"
    by cases (simp_all add: add_row_def del: add_2_eq_Suc add_2_eq_Suc')
qed

lemma add_stage_1:
  "(let delta = d(0 := d 0 + of_int (r 1) * rvecs c 3);
        delta = delta(1 := delta 1 + of_int (r 1) * rvecs c 4);
        delta = delta(2 := delta 2 + of_int (r 1) * rvecs c 5)
    in F delta) = F (add_row c 1 (r 1) d)"
  unfolding add_row_1
  by (simp add: Let_def)

lemma add_row_2:
  "add_row c 2 m d =
     d(0 := d 0 + of_int m * rvecs c 6,
       1 := d 1 + of_int m * rvecs c 7,
       2 := d 2 + of_int m * rvecs c 8)"
proof (rule ext)
  fix j :: nat
  consider "j = 0" | "j = 1" | "j = 2" | "3 \<le> j" by arith
  then show "add_row c 2 m d j =
     (d(0 := d 0 + of_int m * rvecs c 6,
        1 := d 1 + of_int m * rvecs c 7,
        2 := d 2 + of_int m * rvecs c 8)) j"
    by cases (simp_all add: add_row_def del: add_2_eq_Suc add_2_eq_Suc')
qed

lemma add_stage_2:
  "(let delta = d(0 := d 0 + of_int (r 2) * rvecs c 6);
        delta = delta(1 := delta 1 + of_int (r 2) * rvecs c 7);
        delta = delta(2 := delta 2 + of_int (r 2) * rvecs c 8)
    in F delta) = F (add_row c 2 (r 2) d)"
  unfolding add_row_2
  by (simp add: Let_def)

lemma cell_add_vec_stages:
  "cell_add_vec d c r =
     (if nvec c = 0 then d
      else if nvec c = 1 then add_row c 0 (r 0) d
      else if nvec c = 2 then add_row c 1 (r 1) (add_row c 0 (r 0) d)
      else add_row c 2 (r 2) (add_row c 1 (r 1) (add_row c 0 (r 0) d)))"
  unfolding cell_add_vec_def
  by (simp only: add_stage_0 add_stage_1 add_stage_2)

lemma add_row_reduce_direction:
  "add_row c k (translation_count c k d) (reduce_direction c k d) = d"
  by (auto simp: add_row_def reduce_direction_def fun_eq_iff)

lemma add_row_commute:
  "add_row c i m (add_row c k n d) = add_row c k n (add_row c i m d)"
  by (auto simp: add_row_def fun_eq_iff)

lemma ceiling_fifth: "\<lceil>(1::real) / 5\<rceil> = 1"
  by (simp add: ceiling_eq_iff)

text \<open>
  Claim C4. For a cell with \<open>nvec\<close> in \<open>{0,1,2,3}\<close>: if \<open>t[k]\<close>, \<open>k < nvec\<close>, are the
  counts \<open>cell_mic\<close> computes while it reduces \<open>delta\<close>, then \<open>cell_add_vec\<close> with
  \<open>r[k] = t[k]\<close> on the reduced displacement gives \<open>delta\<close> back, exactly.
\<close>

theorem cell_mic_round_trip:
  assumes "nvec c \<in> {0, 1, 2, 3}"
    and "cell_mic_traced d c = (d', t)"
    and "\<forall>k. int k < nvec c \<longrightarrow> r k = t k"
  shows "d' = cell_mic d c \<and> cell_add_vec d' c r = d"
proof -
  have d': "d' = cell_mic d c"
    using assms(2) cell_mic_traced_fst[of d c] by simp
  consider "nvec c = 0" | "nvec c = 1" | "nvec c = 2" | "nvec c = 3" using assms(1) by auto
  then have "cell_add_vec d' c r = d"
  proof cases
    case 1
    with assms(2) show ?thesis
      by (simp add: cell_mic_traced_stages cell_add_vec_stages)
  next
    case 2
    with assms(3) have "r 0 = t 0" by simp
    with 2 assms(2) show ?thesis
      by (auto simp add: cell_mic_traced_stages cell_add_vec_stages add_row_reduce_direction)
  next
    case 3
    with assms(3) have "r 0 = t 0" "r 1 = t 1" by simp_all
    with 3 assms(2) show ?thesis
      by (auto simp add: cell_mic_traced_stages cell_add_vec_stages
            add_row_commute[of c "Suc 0" _ 0] add_row_reduce_direction)
  next
    case 4
    with assms(3) have "r 0 = t 0" "r 1 = t 1" "r 2 = t 2" by simp_all
    with 4 assms(2) show ?thesis
      by (auto simp add: cell_mic_traced_stages cell_add_vec_stages
            add_row_commute[of c 2 _ "Suc 0"] add_row_commute[of c 2 _ 0]
            add_row_commute[of c "Suc 0" _ 0] add_row_reduce_direction)
  qed
  with d' show ?thesis by simp
qed

theorem cell_mic_round_trip_witness:
  "nvec (cell_update blank_cell cubic_rvecs cubic_gvecs 3) \<in> {0, 1, 2, 3}
   \<and> snd (cell_mic_traced (array_of [7, -3, 12])
            (cell_update blank_cell cubic_rvecs cubic_gvecs 3)) 0 = 1
   \<and> snd (cell_mic_traced (array_of [7, -3, 12])
            (cell_update blank_cell cubic_rvecs cubic_gvecs 3)) 1 = 0
   \<and> snd (cell_mic_traced (array_of [7, -3, 12])
            (cell_update blank_cell cubic_rvecs cubic_gvecs 3)) 2 = 1
   \<and> cell_mic (array_of [7, -3, 12]) (cell_update blank_cell cubic_rvecs cubic_gvecs 3) 0 = - 3
   \<and> cell_add_vec
         (cell_mic (array_of [7, -3, 12]) (cell_update blank_cell cubic_rvecs cubic_gvecs 3))
         (cell_update blank_cell cubic_rvecs cubic_gvecs 3)
         (snd (cell_mic_traced (array_of [7, -3, 12])
                (cell_update blank_cell cubic_rvecs cubic_gvecs 3)))
       = array_of [7, -3, 12]"
  using cell_mic_round_trip [of "cell_update blank_cell cubic_rvecs cubic_gvecs 3"
      "array_of [7, -3, 12]"
      "fst (cell_mic_traced (array_of [7, -3, 12]) (cell_update blank_cell cubic_rvecs cubic_gvecs 3))"
      "snd (cell_mic_traced (array_of [7, -3, 12]) (cell_update blank_cell cubic_rvecs cubic_gvecs 3))"
      "snd (cell_mic_traced (array_of [7, -3, 12]) (cell_update blank_cell cubic_rvecs cubic_gvecs 3))"]
  by (simp add: cell_mic_traced_stages cell_mic_stages reduce_direction_def
        translation_count_def projection_simps cell_update_fields cubic_rvecs_def
        cubic_gvecs_def ceiling_fifth)

section \<open>Reduction twice\<close>

lemma projection_reduce_direction:
  "projection c i (reduce_direction c k d)
     = projection c i d
       - of_int (translation_count c k d) * dot (row (gvecs c) i) (row (rvecs c) k)"
  by (simp add: projection_def vec_def row_def reduce_direction_def algebra_simps)

lemma reduced_after:
  assumes "dot (row (gvecs c) k) (row (rvecs c) k) = 1"
  shows "reduced c k (reduce_direction c k d)"
  using translation_count_nearest[of c k d]
  by (simp add: reduced_def projection_reduce_direction assms)

lemma reduced_kept:
  assumes "dot (row (gvecs c) i) (row (rvecs c) k) = 0" and "reduced c i d"
  shows "reduced c i (reduce_direction c k d)"
  using assms by (simp add: reduced_def projection_reduce_direction)

lemma reduced_count: "reduced c k d \<Longrightarrow> translation_count c k d = 0"
  unfolding reduced_def translation_count_def by (simp add: ceiling_eq_iff)

lemma reduced_fixed: "reduced c k d \<Longrightarrow> reduce_direction c k d = d"
  by (simp add: reduce_direction_def reduced_count fun_eq_iff)

lemma dual_1:
  "nvec c = 1 \<Longrightarrow> dual c \<longleftrightarrow> dot (row (gvecs c) 0) (row (rvecs c) 0) = 1"
  by (simp add: dual_def upt_small)

lemma dual_2:
  "nvec c = 2 \<Longrightarrow> dual c \<longleftrightarrow>
     dot (row (gvecs c) 0) (row (rvecs c) 0) = 1 \<and> dot (row (gvecs c) 0) (row (rvecs c) 1) = 0
   \<and> dot (row (gvecs c) 1) (row (rvecs c) 0) = 0 \<and> dot (row (gvecs c) 1) (row (rvecs c) 1) = 1"
proof -
  assume "nvec c = 2"
  then have "nat (nvec c) = 2" by simp
  then show ?thesis by (simp add: dual_def upt_small del: row_simps)
qed

lemma dual_3:
  "nvec c = 3 \<Longrightarrow> dual c \<longleftrightarrow>
     dot (row (gvecs c) 0) (row (rvecs c) 0) = 1 \<and> dot (row (gvecs c) 0) (row (rvecs c) 1) = 0
   \<and> dot (row (gvecs c) 0) (row (rvecs c) 2) = 0
   \<and> dot (row (gvecs c) 1) (row (rvecs c) 0) = 0 \<and> dot (row (gvecs c) 1) (row (rvecs c) 1) = 1
   \<and> dot (row (gvecs c) 1) (row (rvecs c) 2) = 0
   \<and> dot (row (gvecs c) 2) (row (rvecs c) 0) = 0 \<and> dot (row (gvecs c) 2) (row (rvecs c) 1) = 0
   \<and> dot (row (gvecs c) 2) (row (rvecs c) 2) = 1"
proof -
  assume "nvec c = 3"
  then have "nat (nvec c) = 3" by simp
  then show ?thesis by (simp add: dual_def upt_small)
qed

lemma cell_mic_reduced:
  assumes "nvec c \<in> {0, 1, 2, 3}" and "dual c" and "int k < nvec c"
  shows "reduced c k (cell_mic d c)"
proof -
  consider "nvec c = 0" | "nvec c = 1" | "nvec c = 2" | "nvec c = 3" using assms(1) by auto
  then show ?thesis
  proof cases
    case 1 with assms(3) show ?thesis by simp
  next
    case 2
    with assms(3) have k: "k = 0" by simp
    from 2 assms(2) show ?thesis
      unfolding k by (simp add: cell_mic_stages dual_1 reduced_after)
  next
    case 3
    with assms(3) have k: "k = 0 \<or> k = 1" by auto
    from 3 assms(2) have
      "dot (row (gvecs c) 0) (row (rvecs c) 0) = 1" "dot (row (gvecs c) 0) (row (rvecs c) 1) = 0"
      "dot (row (gvecs c) 1) (row (rvecs c) 0) = 0" "dot (row (gvecs c) 1) (row (rvecs c) 1) = 1"
      by (simp_all add: dual_2)
    then have "reduced c 0 (reduce_direction c 1 (reduce_direction c 0 d))"
      "reduced c 1 (reduce_direction c 1 (reduce_direction c 0 d))"
      by (auto intro!: reduced_kept reduced_after)
    with k 3 show ?thesis
      by (auto simp add: cell_mic_stages)
  next
    case 4
    with assms(3) have "k < 3" by simp
    then have k: "k = 0 \<or> k = 1 \<or> k = 2" by (rule less_3_cases)
    from 4 assms(2) have
      "dot (row (gvecs c) 0) (row (rvecs c) 0) = 1" "dot (row (gvecs c) 0) (row (rvecs c) 1) = 0"
      "dot (row (gvecs c) 0) (row (rvecs c) 2) = 0"
      "dot (row (gvecs c) 1) (row (rvecs c) 0) = 0" "dot (row (gvecs c) 1) (row (rvecs c) 1) = 1"
      "dot (row (gvecs c) 1) (row (rvecs c) 2) = 0"
      "dot (row (gvecs c) 2) (row (rvecs c) 0) = 0" "dot (row (gvecs c) 2) (row (rvecs c) 1) = 0"
      "dot (row (gvecs c) 2) (row (rvecs c) 2) = 1"
      by (simp_all add: dual_3)
    then have
      "reduced c 0 (reduce_direction c 2 (reduce_direction c 1 (reduce_direction c 0 d)))"
      "reduced c 1 (reduce_direction c 2 (reduce_direction c 1 (reduce_direction c 0 d)))"
      "reduced c 2 (reduce_direction c 2 (reduce_direction c 1 (reduce_direction c 0 d)))"
      by (auto intro!: reduced_kept reduced_after)
    with k 4 show ?thesis
      by (auto simp add: cell_mic_stages)
  qed
qed

section \<open>Reduction twice in binary64\<close>

lemma cell_mic_rounded_exact: "cell_mic_rounded (\<lambda>x. x) d c = cell_mic d c"
  unfolding cell_mic_rounded_def cell_mic_def by (rule refl)

lemma pow2_pos: "0 < pow2 e"
  by (simp add: pow2_def)

lemma pow2_powr: "pow2 e = 2 powr of_int e"
  by (simp add: pow2_def powr_real_of_int inverse_eq_divide)

lemma binade_eq:
  assumes "pow2 k \<le> \<bar>x\<bar>" and "\<bar>x\<bar> < pow2 (k + 1)"
  shows "\<lfloor>log 2 \<bar>x\<bar>\<rfloor> = k"
proof -
  have pos: "0 < \<bar>x\<bar>" using assms(1) pow2_pos[of k] by linarith
  have "of_int k \<le> log 2 \<bar>x\<bar>"
    using assms(1) pos by (simp add: le_log_iff pow2_powr)
  moreover have "log 2 \<bar>x\<bar> < of_int (k + 1)"
    using assms(2) pos by (simp add: log_less_iff pow2_powr del: of_int_add)
  ultimately show ?thesis by (simp add: floor_eq_iff)
qed

lemma round_even_int: "round_even (of_int m) = m"
  by (simp add: round_even_def)

lemma round_even_tie: "even m \<Longrightarrow> round_even (of_int m + 1 / 2) = m"
proof -
  have "\<lfloor>(of_int m :: real) + 1 / 2\<rfloor> = m" by (simp add: floor_eq_iff)
  then show "even m \<Longrightarrow> round_even (of_int m + 1 / 2) = m"
    by (simp add: round_even_def Let_def)
qed

lemma rnd_at:
  assumes "pow2 k \<le> \<bar>x\<bar>" and "\<bar>x\<bar> < pow2 (k + 1)"
  shows "rnd x = of_int (round_even (x / pow2 (k - 52))) * pow2 (k - 52)"
proof -
  have nz: "x \<noteq> 0" using assms(1) pow2_pos[of k] by auto
  have e: "\<lfloor>log 2 \<bar>x\<bar>\<rfloor> = k" using assms by (rule binade_eq)
  show ?thesis using nz by (simp add: rnd_def e Let_def)
qed

lemma rnd_exact_at:
  assumes "pow2 k \<le> \<bar>x\<bar>" and "\<bar>x\<bar> < pow2 (k + 1)" and "x = of_int m * pow2 (k - 52)"
  shows "rnd x = x"
proof -
  have q: "x / pow2 (k - 52) = of_int m"
    using assms(3) pow2_pos[of "k - 52"] by simp
  have "rnd x = of_int (round_even (x / pow2 (k - 52))) * pow2 (k - 52)"
    using assms(1,2) by (rule rnd_at)
  also have "\<dots> = of_int m * pow2 (k - 52)"
    by (simp only: q round_even_int)
  also have "\<dots> = x"
    by (simp only: assms(3))
  finally show ?thesis .
qed

lemma rnd_tie_at:
  assumes "pow2 k \<le> \<bar>x\<bar>" and "\<bar>x\<bar> < pow2 (k + 1)"
    and "x = (of_int m + 1 / 2) * pow2 (k - 52)" and "even m"
  shows "rnd x = of_int m * pow2 (k - 52)"
proof -
  have q: "x / pow2 (k - 52) = of_int m + 1 / 2"
    using assms(3) pow2_pos[of "k - 52"] by simp
  have "rnd x = of_int (round_even (x / pow2 (k - 52))) * pow2 (k - 52)"
    using assms(1,2) by (rule rnd_at)
  also have "\<dots> = of_int m * pow2 (k - 52)"
    by (simp only: q round_even_tie[OF assms(4)])
  finally show ?thesis .
qed

lemma rnd_0: "rnd 0 = 0"
  by (simp add: rnd_def)

text \<open>The values that the two passes over the diagonal chain round.\<close>

lemma rnd_values:
  "rnd (3 / 4 + 1 / 2 ^ 53) = 3 / 4 + 1 / 2 ^ 53"
  "rnd (3 / 4) = 3 / 4"
  "rnd (3 / 2 + 1 / 2 ^ 53) = 3 / 2"
  "rnd (3 / 2) = 3 / 2"
  "rnd 1 = 1"
  "rnd (1 / 2 + 1 / 2 ^ 52) = 1 / 2 + 1 / 2 ^ 52"
  "rnd (1 / 2) = 1 / 2"
  "rnd (1 / 4 + 1 / 2 ^ 53) = 1 / 4 + 1 / 2 ^ 53"
  "rnd (1 / 4) = 1 / 4"
  "rnd (1 / 2 + 1 / 2 ^ 53) = 1 / 2 + 1 / 2 ^ 53"
  "rnd (1 / 2 ^ 53) = 1 / 2 ^ 53"
  "rnd (- 1 / 2 + 1 / 2 ^ 52) = - 1 / 2 + 1 / 2 ^ 52"
  "rnd (- 1 / 2) = - 1 / 2"
  "rnd (3 / 2 + 1 / 2 ^ 52) = 3 / 2 + 1 / 2 ^ 52"
proof -
  show "rnd (3 / 4 + 1 / 2 ^ 53) = 3 / 4 + 1 / 2 ^ 53"
    by (rule rnd_exact_at[where k = "- 1" and m = "3 * 2 ^ 51 + 1"]) (simp_all add: pow2_def)
  show "rnd (3 / 4) = 3 / 4"
    by (rule rnd_exact_at[where k = "- 1" and m = "3 * 2 ^ 51"]) (simp_all add: pow2_def)
  have "rnd (3 / 2 + 1 / 2 ^ 53) = of_int (3 * 2 ^ 51) * pow2 (0 - 52)"
    by (rule rnd_tie_at[where k = 0 and m = "3 * 2 ^ 51"]) (simp_all add: pow2_def)
  then show "rnd (3 / 2 + 1 / 2 ^ 53) = 3 / 2"
    by (simp add: pow2_def)
  show "rnd (3 / 2) = 3 / 2"
    by (rule rnd_exact_at[where k = 0 and m = "3 * 2 ^ 51"]) (simp_all add: pow2_def)
  show "rnd 1 = 1"
    by (rule rnd_exact_at[where k = 0 and m = "2 ^ 52"]) (simp_all add: pow2_def)
  show "rnd (1 / 2 + 1 / 2 ^ 52) = 1 / 2 + 1 / 2 ^ 52"
    by (rule rnd_exact_at[where k = "- 1" and m = "2 ^ 52 + 2"]) (simp_all add: pow2_def)
  show "rnd (1 / 2) = 1 / 2"
    by (rule rnd_exact_at[where k = "- 1" and m = "2 ^ 52"]) (simp_all add: pow2_def)
  show "rnd (1 / 4 + 1 / 2 ^ 53) = 1 / 4 + 1 / 2 ^ 53"
    by (rule rnd_exact_at[where k = "- 2" and m = "2 ^ 52 + 2"]) (simp_all add: pow2_def)
  show "rnd (1 / 4) = 1 / 4"
    by (rule rnd_exact_at[where k = "- 2" and m = "2 ^ 52"]) (simp_all add: pow2_def)
  show "rnd (1 / 2 + 1 / 2 ^ 53) = 1 / 2 + 1 / 2 ^ 53"
    by (rule rnd_exact_at[where k = "- 1" and m = "2 ^ 52 + 1"]) (simp_all add: pow2_def)
  show "rnd (1 / 2 ^ 53) = 1 / 2 ^ 53"
    by (rule rnd_exact_at[where k = "- 53" and m = "2 ^ 52"]) (simp_all add: pow2_def)
  show "rnd (- 1 / 2 + 1 / 2 ^ 52) = - 1 / 2 + 1 / 2 ^ 52"
    by (rule rnd_exact_at[where k = "- 2" and m = "- (2 ^ 53) + 4"]) (simp_all add: pow2_def)
  show "rnd (- 1 / 2) = - 1 / 2"
    by (rule rnd_exact_at[where k = "- 1" and m = "- (2 ^ 52)"]) (simp_all add: pow2_def)
  show "rnd (3 / 2 + 1 / 2 ^ 52) = 3 / 2 + 1 / 2 ^ 52"
    by (rule rnd_exact_at[where k = 0 and m = "3 * 2 ^ 51 + 1"]) (simp_all add: pow2_def)
qed


lemma cell_mic_rounded_one_direction:
  assumes "nvec c = 1"
  shows "cell_mic_rounded fl d c =
     d(0 := fl (d 0 - fl (ceil (fl (fl (fl (fl (gvecs c 0 * d 0) + fl (gvecs c 1 * d 1))
                                        + fl (gvecs c 2 * d 2)) - 0.5)) * rvecs c 0)),
       1 := fl (d 1 - fl (ceil (fl (fl (fl (fl (gvecs c 0 * d 0) + fl (gvecs c 1 * d 1))
                                        + fl (gvecs c 2 * d 2)) - 0.5)) * rvecs c 1)),
       2 := fl (d 2 - fl (ceil (fl (fl (fl (fl (gvecs c 0 * d 0) + fl (gvecs c 1 * d 1))
                                        + fl (gvecs c 2 * d 2)) - 0.5)) * rvecs c 2)))"
  using assms by (simp add: cell_mic_rounded_def Let_def)

lemma array_of_3_update:
  "(array_of [a, b, c])(0 := a', 1 := b', 2 := c') = array_of [a', b', c']"
proof (rule ext)
  fix j :: nat
  consider "j = 0" | "j = 1" | "j = 2" | "3 \<le> j" by arith
  then show "((array_of [a, b, c])(0 := a', 1 := b', 2 := c')) j = array_of [a', b', c'] j"
    by cases simp_all
qed

lemma diagonal_cell_fields:
  "nvec (cell_update blank_cell diagonal_rvecs diagonal_gvecs 1) = 1"
  "rvecs (cell_update blank_cell diagonal_rvecs diagonal_gvecs 1) 0 = 1"
  "rvecs (cell_update blank_cell diagonal_rvecs diagonal_gvecs 1) 1 = 1"
  "rvecs (cell_update blank_cell diagonal_rvecs diagonal_gvecs 1) 2 = 0"
  "gvecs (cell_update blank_cell diagonal_rvecs diagonal_gvecs 1) 0 = 1 / 2"
  "gvecs (cell_update blank_cell diagonal_rvecs diagonal_gvecs 1) 1 = 1 / 2"
  "gvecs (cell_update blank_cell diagonal_rvecs diagonal_gvecs 1) 2 = 0"
  by (simp_all add: cell_update_fields diagonal_rvecs_def diagonal_gvecs_def)

lemma diagonal_first_pass:
  "cell_mic_b64 (array_of [3 / 2 + 1 / 2 ^ 52, 3 / 2, 0])
      (cell_update blank_cell diagonal_rvecs diagonal_gvecs 1)
     = array_of [1 / 2 + 1 / 2 ^ 52, 1 / 2, 0]"
proof -
  let ?c = "cell_update blank_cell diagonal_rvecs diagonal_gvecs 1"
  let ?d = "array_of [3 / 2 + 1 / 2 ^ 52, 3 / 2, 0]"
  have m0: "gvecs ?c 0 * ?d 0 = 3 / 4 + 1 / 2 ^ 53"
    and m1: "gvecs ?c 1 * ?d 1 = 3 / 4"
    and m2: "gvecs ?c 2 * ?d 2 = 0"
    by (simp_all add: cell_update_fields diagonal_gvecs_def)
  have s1: "(3 / 4 + 1 / 2 ^ 53) + 3 / 4 = (3 / 2 + 1 / 2 ^ 53 :: real)"
    and s2: "3 / 2 + 0 = (3 / 2 :: real)"
    and s3: "3 / 2 - 0.5 = (1 :: real)"
    by simp_all
  have x: "ceil (rnd (rnd (rnd (rnd (gvecs ?c 0 * ?d 0) + rnd (gvecs ?c 1 * ?d 1))
                           + rnd (gvecs ?c 2 * ?d 2)) - 0.5)) = 1"
    by (simp only: m0 m1 m2 rnd_values rnd_0 s1 s2 s3) (simp add: ceil_def)
  have d0: "rnd (?d 0 - rnd (1 * rvecs ?c 0)) = 1 / 2 + 1 / 2 ^ 52"
  proof -
    have "?d 0 - 1 = 1 / 2 + 1 / 2 ^ 52" by simp
    then show ?thesis
      by (simp only: diagonal_cell_fields mult_1 rnd_values)
  qed
  have d1: "rnd (?d 1 - rnd (1 * rvecs ?c 1)) = 1 / 2"
  proof -
    have "?d 1 - 1 = 1 / 2" by simp
    then show ?thesis
      by (simp only: diagonal_cell_fields mult_1 rnd_values)
  qed
  have d2: "rnd (?d 2 - rnd (1 * rvecs ?c 2)) = 0"
    by (simp add: diagonal_cell_fields rnd_0)
  show ?thesis
    unfolding cell_mic_b64_def
      cell_mic_rounded_one_direction[OF diagonal_cell_fields(1)] x d0 d1 d2
    by (rule array_of_3_update)
qed


lemma diagonal_second_pass:
  "cell_mic_b64 (array_of [1 / 2 + 1 / 2 ^ 52, 1 / 2, 0])
      (cell_update blank_cell diagonal_rvecs diagonal_gvecs 1)
     = array_of [- 1 / 2 + 1 / 2 ^ 52, - 1 / 2, 0]"
proof -
  let ?c = "cell_update blank_cell diagonal_rvecs diagonal_gvecs 1"
  let ?d = "array_of [1 / 2 + 1 / 2 ^ 52, 1 / 2, 0]"
  have m0: "gvecs ?c 0 * ?d 0 = 1 / 4 + 1 / 2 ^ 53"
    and m1: "gvecs ?c 1 * ?d 1 = 1 / 4"
    and m2: "gvecs ?c 2 * ?d 2 = 0"
    by (simp_all add: cell_update_fields diagonal_gvecs_def)
  have s1: "(1 / 4 + 1 / 2 ^ 53) + 1 / 4 = (1 / 2 + 1 / 2 ^ 53 :: real)"
    and s2: "(1 / 2 + 1 / 2 ^ 53) + 0 = (1 / 2 + 1 / 2 ^ 53 :: real)"
    and s3: "(1 / 2 + 1 / 2 ^ 53) - 0.5 = (1 / 2 ^ 53 :: real)"
    by simp_all
  have c: "ceil (1 / 2 ^ 53) = 1"
    by (simp add: ceil_def ceiling_eq_iff)
  have x: "ceil (rnd (rnd (rnd (rnd (gvecs ?c 0 * ?d 0) + rnd (gvecs ?c 1 * ?d 1))
                           + rnd (gvecs ?c 2 * ?d 2)) - 0.5)) = 1"
    by (simp only: m0 m1 m2 rnd_values rnd_0 s1 s2 s3 c)
  have d0: "rnd (?d 0 - rnd (1 * rvecs ?c 0)) = - 1 / 2 + 1 / 2 ^ 52"
  proof -
    have "?d 0 - 1 = - 1 / 2 + 1 / 2 ^ 52" by simp
    then show ?thesis
      by (simp only: diagonal_cell_fields mult_1 rnd_values)
  qed
  have d1: "rnd (?d 1 - rnd (1 * rvecs ?c 1)) = - 1 / 2"
  proof -
    have "?d 1 - 1 = - 1 / 2" by simp
    then show ?thesis
      by (simp only: diagonal_cell_fields mult_1 rnd_values)
  qed
  have d2: "rnd (?d 2 - rnd (1 * rvecs ?c 2)) = 0"
    by (simp add: diagonal_cell_fields rnd_0)
  show ?thesis
    unfolding cell_mic_b64_def
      cell_mic_rounded_one_direction[OF diagonal_cell_fields(1)] x d0 d1 d2
    by (rule array_of_3_update)
qed

lemma diagonal_dual: "dual (cell_update blank_cell diagonal_rvecs diagonal_gvecs 1)"
  unfolding dual_1[OF diagonal_cell_fields(1)]
  by (simp add: row_simps cell_update_fields diagonal_rvecs_def diagonal_gvecs_def)

text \<open>
  In exact arithmetic the first pass over this input takes the count 2, where the
  rounded sum, exactly 3/2, gives the count 1.
\<close>

lemma diagonal_exact:
  "cell_mic (array_of [3 / 2 + 1 / 2 ^ 52, 3 / 2, 0])
      (cell_update blank_cell diagonal_rvecs diagonal_gvecs 1) 0 = - 1 / 2 + 1 / 2 ^ 52"
  by (simp add: cell_mic_stages reduce_direction_def translation_count_def projection_simps
        cell_update_fields diagonal_rvecs_def diagonal_gvecs_def ceiling_eq_iff)

text \<open>
  Claim C5, as stated, has a second \<open>cell_mic\<close> leave a reduced displacement the same
  vector up to floating-point tolerance in doubles. On the diagonal chain, whose rows are
  exactly dual, the displacement \<open>(3/2 + 1/2^52, 3/2, 0)\<close> has a projection whose
  rounded value is 3/2: the first pass in binary64 takes the count 1 and leaves
  \<open>(1/2 + 1/2^52, 1/2, 0)\<close>, whose projection \<open>1/2 + 1/2^53\<close> is above one half, so
  the second pass takes the count 1 again and moves the vector by the whole lattice
  vector \<open>(1, 1, 0)\<close>.
\<close>

theorem cell_mic_b64_twice_counterexample:
  "nvec (cell_update blank_cell diagonal_rvecs diagonal_gvecs 1) \<in> {0, 1, 2, 3}
   \<and> dual (cell_update blank_cell diagonal_rvecs diagonal_gvecs 1)
   \<and> rnd (3 / 2 + 1 / 2 ^ 52) = 3 / 2 + 1 / 2 ^ 52
   \<and> cell_mic_b64 (array_of [3 / 2 + 1 / 2 ^ 52, 3 / 2, 0])
        (cell_update blank_cell diagonal_rvecs diagonal_gvecs 1)
       = array_of [1 / 2 + 1 / 2 ^ 52, 1 / 2, 0]
   \<and> cell_mic_b64
        (cell_mic_b64 (array_of [3 / 2 + 1 / 2 ^ 52, 3 / 2, 0])
           (cell_update blank_cell diagonal_rvecs diagonal_gvecs 1))
        (cell_update blank_cell diagonal_rvecs diagonal_gvecs 1)
       = array_of [- 1 / 2 + 1 / 2 ^ 52, - 1 / 2, 0]
   \<and> cell_mic_b64
        (cell_mic_b64 (array_of [3 / 2 + 1 / 2 ^ 52, 3 / 2, 0])
           (cell_update blank_cell diagonal_rvecs diagonal_gvecs 1))
        (cell_update blank_cell diagonal_rvecs diagonal_gvecs 1)
       \<noteq> cell_mic_b64 (array_of [3 / 2 + 1 / 2 ^ 52, 3 / 2, 0])
           (cell_update blank_cell diagonal_rvecs diagonal_gvecs 1)"
proof -
  have "array_of [- 1 / 2 + 1 / 2 ^ 52, - 1 / 2, 0] 1 \<noteq> array_of [1 / 2 + 1 / 2 ^ 52, 1 / 2, 0] 1"
    by simp
  then have "array_of [- 1 / 2 + 1 / 2 ^ 52, - 1 / 2, 0] \<noteq> array_of [1 / 2 + 1 / 2 ^ 52, 1 / 2, 0]"
    by (rule contrapos_nn) (rule fun_cong)
  then show ?thesis
    by (simp only: diagonal_first_pass diagonal_second_pass diagonal_dual diagonal_cell_fields
          rnd_values) simp
qed

text \<open>
  Claim C5, amended. In exact arithmetic, for a cell with \<open>nvec\<close> in \<open>{0,1,2,3}\<close> whose
  active reciprocal rows are dual to its active direct rows, \<open>cell_mic\<close> leaves a
  displacement that \<open>cell_mic\<close> has reduced as it is, and every count of the second pass
  is 0.
\<close>

theorem cell_mic_idempotent:
  assumes "nvec c \<in> {0, 1, 2, 3}" and "dual c"
  shows "cell_mic (cell_mic d c) c = cell_mic d c
       \<and> snd (cell_mic_traced (cell_mic d c) c) = (\<lambda>_. 0)"
proof -
  define e where "e = cell_mic d c"
  have r: "reduced c k e" if "int k < nvec c" for k
    unfolding e_def using assms that by (rule cell_mic_reduced)
  consider "nvec c = 0" | "nvec c = 1" | "nvec c = 2" | "nvec c = 3" using assms(1) by auto
  then have "cell_mic_traced e c = (e, \<lambda>_. 0)"
  proof cases
    case 1
    then show ?thesis by (simp add: cell_mic_traced_stages)
  next
    case 2
    with r[of 0] have "reduced c 0 e" by simp
    with 2 show ?thesis
      by (simp add: cell_mic_traced_stages reduced_fixed reduced_count fun_eq_iff)
  next
    case 3
    with r[of 0] r[of 1] have "reduced c 0 e" "reduced c 1 e" by simp_all
    with 3 show ?thesis
      by (simp add: cell_mic_traced_stages reduced_fixed reduced_count fun_eq_iff)
  next
    case 4
    with r[of 0] r[of 1] r[of 2] have "reduced c 0 e" "reduced c 1 e" "reduced c 2 e"
      by simp_all
    with 4 show ?thesis
      by (simp add: cell_mic_traced_stages reduced_fixed reduced_count fun_eq_iff)
  qed
  then have "fst (cell_mic_traced e c) = e" "snd (cell_mic_traced e c) = (\<lambda>_. 0)"
    by simp_all
  then show ?thesis
    unfolding e_def by (simp add: cell_mic_traced_fst)
qed

theorem cell_mic_idempotent_witness:
  "nvec (cell_update blank_cell cubic_rvecs cubic_gvecs 3) \<in> {0, 1, 2, 3}
   \<and> dual (cell_update blank_cell cubic_rvecs cubic_gvecs 3)
   \<and> cell_mic (array_of [7, -3, 12]) (cell_update blank_cell cubic_rvecs cubic_gvecs 3) 0 = - 3
   \<and> cell_mic (array_of [7, -3, 12]) (cell_update blank_cell cubic_rvecs cubic_gvecs 3) 1 = - 3
   \<and> cell_mic (array_of [7, -3, 12]) (cell_update blank_cell cubic_rvecs cubic_gvecs 3) 2 = 2
   \<and> cell_mic
         (cell_mic (array_of [7, -3, 12]) (cell_update blank_cell cubic_rvecs cubic_gvecs 3))
         (cell_update blank_cell cubic_rvecs cubic_gvecs 3) 0 = - 3
   \<and> cell_mic
         (cell_mic (array_of [7, -3, 12]) (cell_update blank_cell cubic_rvecs cubic_gvecs 3))
         (cell_update blank_cell cubic_rvecs cubic_gvecs 3) 1 = - 3
   \<and> cell_mic
         (cell_mic (array_of [7, -3, 12]) (cell_update blank_cell cubic_rvecs cubic_gvecs 3))
         (cell_update blank_cell cubic_rvecs cubic_gvecs 3) 2 = 2
   \<and> snd (cell_mic_traced
         (cell_mic (array_of [7, -3, 12]) (cell_update blank_cell cubic_rvecs cubic_gvecs 3))
         (cell_update blank_cell cubic_rvecs cubic_gvecs 3)) 0 = 0"
proof -
  have n: "nvec (cell_update blank_cell cubic_rvecs cubic_gvecs 3) = 3"
    by (simp add: cell_update_fields)
  have d: "dual (cell_update blank_cell cubic_rvecs cubic_gvecs 3)"
    unfolding dual_3[OF n]
    by (simp add: row_simps cell_update_fields cubic_rvecs_def cubic_gvecs_def)
  have v: "cell_mic (array_of [7, -3, 12]) (cell_update blank_cell cubic_rvecs cubic_gvecs 3) 0 = - 3
    \<and> cell_mic (array_of [7, -3, 12]) (cell_update blank_cell cubic_rvecs cubic_gvecs 3) 1 = - 3
    \<and> cell_mic (array_of [7, -3, 12]) (cell_update blank_cell cubic_rvecs cubic_gvecs 3) 2 = 2"
    by (simp add: cell_mic_stages reduce_direction_def translation_count_def
        projection_simps cell_update_fields cubic_rvecs_def cubic_gvecs_def ceiling_fifth)
  show ?thesis
    using cell_mic_idempotent [of "cell_update blank_cell cubic_rvecs cubic_gvecs 3"
        "array_of [7, -3, 12]"] d v
    by (simp add: n)
qed

end
